theory Spec2Isabelle
  imports Complex_Main "HOL-Library.AList" "HOL-Library.Multiset" "HOL-Library.Sublist"
begin

section \<open>Calendar dates as the JavaScript \<^verbatim>\<open>Date\<close> object has them\<close>

text \<open>
  The payment route works with \<^verbatim>\<open>Date\<close> objects in local time. A date object is
  modelled by its normalised calendar fields (\<^verbatim>\<open>getFullYear()\<close>, \<^verbatim>\<open>getMonth()\<close> counted
  from 0, \<^verbatim>\<open>getDate()\<close>); every date object the route builds itself is at local
  midnight. Its time value, which is what the comparisons of two dates and
  \<^verbatim>\<open>differenceInDays\<close> look at, is counted in whole days since 1970-01-01.
  Time zones and daylight saving are outside the model.
\<close>

definition isLeapYear :: "int \<Rightarrow> bool" where
  "isLeapYear y \<longleftrightarrow> y mod 4 = 0 \<and> (y mod 100 \<noteq> 0 \<or> y mod 400 = 0)"

text \<open>Number of days of month \<open>m\<close> (0 = January .. 11 = December) of year \<open>y\<close>.\<close>

definition daysInMonth :: "int \<Rightarrow> int \<Rightarrow> int" where
  "daysInMonth y m =
     (if m = 1 then (if isLeapYear y then 29 else 28)
      else if m = 3 \<or> m = 5 \<or> m = 8 \<or> m = 10 then 30
      else 31)"

text \<open>Day number of 1 January of year \<open>y\<close> (ECMAScript \<^verbatim>\<open>DayFromYear\<close>).\<close>

definition dayFromYear :: "int \<Rightarrow> int" where
  "dayFromYear y =
     365 * (y - 1970) + (y - 1969) div 4 - (y - 1901) div 100 + (y - 1601) div 400"

text \<open>Days of year \<open>y\<close> that lie before the first of month \<open>m\<close>.\<close>

definition daysBeforeMonth :: "int \<Rightarrow> int \<Rightarrow> int" where
  "daysBeforeMonth y m =
     (let leap = (if isLeapYear y then 1 else 0) in
      if m = 0 then 0
      else if m = 1 then 31
      else if m = 2 then 59 + leap
      else if m = 3 then 90 + leap
      else if m = 4 then 120 + leap
      else if m = 5 then 151 + leap
      else if m = 6 then 181 + leap
      else if m = 7 then 212 + leap
      else if m = 8 then 243 + leap
      else if m = 9 then 273 + leap
      else if m = 10 then 304 + leap
      else 334 + leap)"

text \<open>
  ECMAScript \<^verbatim>\<open>MakeDay(year, month, date)\<close>: the month may lie outside 0..11 and
  the date outside the month; the day number is linear in the date.
\<close>

definition makeDay :: "int \<Rightarrow> int \<Rightarrow> int \<Rightarrow> int" where
  "makeDay y m d =
     (let ym = y + m div 12; mn = m mod 12
      in dayFromYear ym + daysBeforeMonth ym mn + d - 1)"

record jsdate =
  fullYear :: int
  monthIndex :: int
  dayOfMonth :: int

text \<open>
  Bringing a date of month \<open>(y, m)\<close>, with \<open>0 \<le> m < 12\<close>, into its month: a date
  below 1 borrows from the months before, a date beyond the month's end carries into the
  months after.
\<close>

function normDay :: "int \<Rightarrow> int \<Rightarrow> int \<Rightarrow> jsdate" where
  "normDay y m d =
     (if d < 1 then
        (let py = (if m = 0 then y - 1 else y); pm = (if m = 0 then 11 else m - 1)
         in normDay py pm (d + daysInMonth py pm))
      else if daysInMonth y m < d then
        (let ny = (if m = 11 then y + 1 else y); nm = (if m = 11 then 0 else m + 1)
         in normDay ny nm (d - daysInMonth y m))
      else \<lparr>fullYear = y, monthIndex = m, dayOfMonth = d\<rparr>)"
  by pat_completeness auto
termination
  by (relation "measure (\<lambda>(y, m, d). if d < 1 then nat (33 - d) else nat d)")
     (auto simp: daysInMonth_def)

declare normDay.simps [simp del]

text \<open>\<^verbatim>\<open>new Date(year, month, date)\<close>, at local midnight.\<close>

definition newDate :: "int \<Rightarrow> int \<Rightarrow> int \<Rightarrow> jsdate" where
  "newDate y m d = normDay (y + m div 12) (m mod 12) d"

text \<open>\<^verbatim>\<open>date.setDate(n)\<close>: the date of the month is replaced and the fields renormalised.\<close>

definition setDate :: "jsdate \<Rightarrow> int \<Rightarrow> jsdate" where
  "setDate dt n = newDate (fullYear dt) (monthIndex dt) n"

text \<open>The time value of a date object at local midnight, in days.\<close>

definition getTime :: "jsdate \<Rightarrow> int" where
  "getTime dt = makeDay (fullYear dt) (monthIndex dt) (dayOfMonth dt)"

text \<open>
  \<^verbatim>\<open>new Date()\<close>, the present moment: its calendar fields and the milliseconds
  elapsed since local midnight.
\<close>

record instant =
  nowYear :: int
  nowMonth :: int
  nowDate :: int
  nowMillis :: int

definition msPerDay :: int where
  "msPerDay = 86400000"

text \<open>\<^verbatim>\<open>d < today\<close> for a date object \<open>d\<close> at local midnight: time values compared in milliseconds.\<close>

definition beforeInstant :: "jsdate \<Rightarrow> instant \<Rightarrow> bool" where
  "beforeInstant dt today \<longleftrightarrow>
     getTime dt * msPerDay
       < makeDay (nowYear today) (nowMonth today) (nowDate today) * msPerDay + nowMillis today"

section \<open>Billing cycle\<close>

text \<open>
  \<^verbatim>\<open>calculatePaymentDate(year, month, day)\<close>: the first of the month, then
  \<^verbatim>\<open>setDate\<close> of the payment day capped at the last day of that month
  (\<^verbatim>\<open>new Date(year, month + 1, 0).getDate()\<close>).
\<close>

definition calculatePaymentDate :: "int \<Rightarrow> int \<Rightarrow> int \<Rightarrow> jsdate" where
  "calculatePaymentDate year month day =
     (let date = newDate year month 1;
          lastDay = dayOfMonth (newDate year (month + 1) 0);
          actualDay = min day lastDay
      in setDate date actualDay)"

record cycle =
  cycleStart :: jsdate
  cycleEnd :: jsdate

text \<open>The cycle resolution at the head of \<^verbatim>\<open>GET /api/payments/current-month\<close>.\<close>

definition resolveCycle :: "instant \<Rightarrow> int \<Rightarrow> cycle" where
  "resolveCycle today paymentDay =
     (let currentYear = nowYear today;
          currentMonth = nowMonth today;
          candidate = calculatePaymentDate currentYear currentMonth paymentDay;
          currentPaymentDate =
            (if beforeInstant candidate today
             then calculatePaymentDate currentYear (currentMonth + 1) paymentDay
             else candidate);
          payYear = fullYear currentPaymentDate;
          payMonth = monthIndex currentPaymentDate;
          prevYear = (if payMonth = 0 then payYear - 1 else payYear);
          prevMonth = (if payMonth = 0 then 11 else payMonth - 1);
          prevPaymentDate = calculatePaymentDate prevYear prevMonth paymentDay
      in \<lparr>cycleStart = setDate prevPaymentDate (dayOfMonth prevPaymentDate + 1),
          cycleEnd = currentPaymentDate\<rparr>)"

section \<open>JavaScript numbers\<close>

text \<open>
  A JavaScript number is an IEEE 754 double. The model holds the exact value of a finite
  double as a rational, and every operation of the route on numbers (\<^verbatim>\<open>parseFloat\<close>,
  \<^verbatim>\<open>/\<close>, \<^verbatim>\<open>*\<close>, \<^verbatim>\<open>+=\<close>) is the exact operation followed by rounding to the nearest
  double, a tie going to the even significand. The significand has 53 bits; the exponent is
  not bounded in the model, so overflow to infinity and subnormal numbers are outside it
  (the amounts of the route, fees of at most ten digits times a number of days, are far
  from both).
\<close>

text \<open>The number of binary digits of a positive integer.\<close>

function bitLength :: "int \<Rightarrow> int" where
  "bitLength n = (if n \<le> 0 then 0 else 1 + bitLength (n div 2))"
  by pat_completeness auto
termination
  by (relation "measure nat") auto

declare bitLength.simps [simp del]

definition pow2 :: "int \<Rightarrow> rat" where
  "pow2 e = (if 0 \<le> e then 2 ^ nat e else 1 / 2 ^ nat (- e))"

text \<open>
  For \<open>a > 0\<close>, the exponent \<open>e\<close> with \<open>2 ^ e \<le> a < 2 ^ (e + 1)\<close>: the difference of the
  bit lengths of numerator and denominator, or one less.
\<close>

definition binaryExponent :: "rat \<Rightarrow> int" where
  "binaryExponent a =
     (let (p, q) = quotient_of a;
          d = bitLength p - bitLength q
      in if pow2 d \<le> a then d else d - 1)"

definition roundHalfEven :: "rat \<Rightarrow> int" where
  "roundHalfEven q =
     (let f = \<lfloor>q\<rfloor>; r = q - of_int f
      in if r < 1 / 2 then f
         else if 1 / 2 < r then f + 1
         else if even f then f else f + 1)"

text \<open>The double nearest to \<open>x\<close>: \<open>x\<close> rounded to 53 significant bits.\<close>

definition toDouble :: "rat \<Rightarrow> rat" where
  "toDouble x =
     (if x = 0 then 0
      else (let a = \<bar>x\<bar>; ulp = pow2 (binaryExponent a - 52)
            in sgn x * of_int (roundHalfEven (a / ulp)) * ulp))"

text \<open>
  \<^verbatim>\<open>parseFloat\<close> of a decimal string, which is given by the rational it denotes;
  \<^verbatim>\<open>x / y\<close>, \<^verbatim>\<open>x * y\<close> and \<^verbatim>\<open>x + y\<close> on numbers.
\<close>

definition parseFloat :: "rat \<Rightarrow> rat" where
  "parseFloat d = toDouble d"

definition numDivide :: "rat \<Rightarrow> rat \<Rightarrow> rat" where
  "numDivide x y = toDouble (x / y)"

definition numTimes :: "rat \<Rightarrow> rat \<Rightarrow> rat" where
  "numTimes x y = toDouble (x * y)"

definition numPlus :: "rat \<Rightarrow> rat \<Rightarrow> rat" where
  "numPlus x y = toDouble (x + y)"

section \<open>Records of the data model\<close>

text \<open>
  A \<^verbatim>\<open>date\<close> column arrives as the string \<^verbatim>\<open>YYYY-MM-DD\<close>; it is modelled by its
  three numbers (the month counted from 1, as written). \<^verbatim>\<open>parseISO\<close> makes the date
  object at local midnight of that day, of which the route only uses the time value.
\<close>

record isodate =
  isoYear :: int
  isoMonth :: int
  isoDay :: int

definition parseISO :: "isodate \<Rightarrow> int" where
  "parseISO s = makeDay (isoYear s) (isoMonth s - 1) (isoDay s)"

record student =
  studentId :: string
  firstName :: string
  lastName :: string
  packageStartDate :: isodate
  packageEndDate :: isodate
  isActive :: int

text \<open>\<^verbatim>\<open>CoachWithStudents\<close>.\<close>

record coach =
  coachId :: string
  coachFirstName :: string
  coachLastName :: string
  students :: "student list"

record coachTransfer =
  transferStudentId :: string
  oldCoachId :: string
  newCoachId :: string
  transferDate :: isodate

text \<open>
  \<^verbatim>\<open>coachMonthlyFee\<close> is the decimal string of a \<^verbatim>\<open>decimal(10, 2)\<close> column, held as
  the rational it denotes; the route reads it with \<^verbatim>\<open>parseFloat\<close>.
\<close>

record systemSettings =
  coachMonthlyFee :: rat
  globalPaymentDay :: int

text \<open>An element of the route's \<^verbatim>\<open>periods\<close> array; start and end are time values in days.\<close>

record period =
  periodCoach :: string
  periodStart :: int
  periodEnd :: int

text \<open>
  \<^verbatim>\<open>PaymentBreakdownItem\<close>. The amount is the string \<^verbatim>\<open>amount.toFixed(2)\<close>,
  held as the number of hundredths it denotes.
\<close>

record breakdownItem =
  itemStudentId :: string
  itemStudentName :: string
  itemAmount :: int
  daysWorked :: int

record coachData =
  coachName :: string
  breakdown :: "breakdownItem list"
  totalAmount :: rat

text \<open>\<^verbatim>\<open>CoachPaymentSummary\<close>; the total is again a \<^verbatim>\<open>toFixed(2)\<close> string, in hundredths.\<close>

record coachPaymentSummary =
  summaryCoachId :: string
  summaryCoachName :: string
  activeStudentCount :: nat
  summaryTotalAmount :: int
  summaryBreakdown :: "breakdownItem list"

text \<open>
  \<^verbatim>\<open>x.toFixed(2)\<close> of a double with the exact value \<open>x\<close>: the number of hundredths
  nearest to \<open>x\<close>, the larger one in magnitude at a tie; the sign is treated apart.
\<close>

definition toFixed2 :: "rat \<Rightarrow> int" where
  "toFixed2 x = (if x < 0 then - \<lfloor>(- x) * 100 + 1 / 2\<rfloor> else \<lfloor>x * 100 + 1 / 2\<rfloor>)"

section \<open>Splitting one student's work window by coach\<close>

text \<open>
  Every date in this part of the route is a date object at local midnight, and the route
  only compares them, subtracts them with \<^verbatim>\<open>differenceInDays\<close> and steps one day back
  with \<^verbatim>\<open>d.setDate(d.getDate() - 1)\<close>. They are held as time values in days: comparison
  is comparison of integers, the difference in days is subtraction, and the day before is
  the time value minus one (as \<^const>\<open>setDate\<close> makes it, see the lemma
  \<open>getTime_setDate_pred\<close> below).
\<close>

definition transferTime :: "coachTransfer \<Rightarrow> int" where
  "transferTime t = parseISO (transferDate t)"

text \<open>
  \<^verbatim>\<open>[...allTransfers].sort((a, b) => time a - time b)\<close>: ascending by time value;
  \<^verbatim>\<open>Array.prototype.sort\<close> is stable, so transfers of the same date keep the order in
  which the storage returned them.
\<close>

definition sortedTransfers :: "coachTransfer list \<Rightarrow> coachTransfer list" where
  "sortedTransfers allTransfers = sort_key transferTime allTransfers"

text \<open>
  The coach at the start of the work window: the new coach of the latest transfer before
  it, else the old coach of the earliest transfer, else the current coach. The array
  reads \<^verbatim>\<open>[length - 1]\<close> and \<^verbatim>\<open>[0]\<close> are guarded by the length tests.
\<close>

definition coachAtWorkStart :: "coachTransfer list \<Rightarrow> int \<Rightarrow> string \<Rightarrow> string" where
  "coachAtWorkStart sortedTs workStart currentCoachId =
     (let transfersBeforeWorkStart = filter (\<lambda>t. transferTime t < workStart) sortedTs
      in if length transfersBeforeWorkStart > 0 then newCoachId (last transfersBeforeWorkStart)
         else if length sortedTs > 0 then oldCoachId (hd sortedTs)
         else currentCoachId)"

definition relevantTransfers :: "coachTransfer list \<Rightarrow> int \<Rightarrow> int \<Rightarrow> coachTransfer list" where
  "relevantTransfers sortedTs workStart workEnd =
     filter (\<lambda>t. transferTime t \<ge> workStart \<and> transferTime t \<le> workEnd) sortedTs"

text \<open>
  The loop \<^verbatim>\<open>for (i = 0; i < relevantTransfers.length - 1; i++)\<close> over neighbouring
  transfers \<^verbatim>\<open>relevantTransfers[i]\<close> and \<^verbatim>\<open>relevantTransfers[i + 1]\<close>.
\<close>

fun middlePeriods :: "coachTransfer list \<Rightarrow> int \<Rightarrow> period list" where
  "middlePeriods (currentTransfer # nextTransfer # rest) studentEnd =
     (let currentTransferDate = transferTime currentTransfer;
          dayBeforeNext = transferTime nextTransfer - 1
      in (if currentTransferDate \<le> dayBeforeNext \<and> currentTransferDate \<le> studentEnd
          then [\<lparr>periodCoach = newCoachId currentTransfer,
                 periodStart = currentTransferDate,
                 periodEnd = (if dayBeforeNext < studentEnd then dayBeforeNext else studentEnd)\<rparr>]
          else [])
         @ middlePeriods (nextTransfer # rest) studentEnd)"
| "middlePeriods [t] studentEnd = []"
| "middlePeriods [] studentEnd = []"

text \<open>
  The \<^verbatim>\<open>periods\<close> array: the single period when no transfer falls into the work window,
  and otherwise the leading period, the middle periods and the trailing period.
  \<^const>\<open>hd\<close> and \<^const>\<open>last\<close> are only read of the non-empty list.
\<close>

definition buildPeriods ::
  "coachTransfer list \<Rightarrow> string \<Rightarrow> int \<Rightarrow> int \<Rightarrow> int \<Rightarrow> period list" where
  "buildPeriods relevant coachAtStart workStart workEnd studentEnd =
     (if length relevant = 0
      then [\<lparr>periodCoach = coachAtStart, periodStart = workStart, periodEnd = workEnd\<rparr>]
      else
        (let firstTransferDate = transferTime (hd relevant);
             dayBeforeTransfer = firstTransferDate - 1
         in if workStart < firstTransferDate
            then [\<lparr>periodCoach = coachAtStart, periodStart = workStart,
                   periodEnd = (if dayBeforeTransfer < workEnd then dayBeforeTransfer else workEnd)\<rparr>]
            else [])
        @ middlePeriods relevant studentEnd
        @ (let lastTransfer = last relevant;
               lastTransferDate = transferTime lastTransfer
           in if lastTransferDate \<le> workEnd
              then [\<lparr>periodCoach = newCoachId lastTransfer, periodStart = lastTransferDate,
                     periodEnd = workEnd\<rparr>]
              else []))"

text \<open>The student's work window inside the cycle: \<open>(workStart, workEnd)\<close>.\<close>

definition workWindow :: "int \<Rightarrow> int \<Rightarrow> student \<Rightarrow> int \<times> int" where
  "workWindow cycleStartTime cycleEndTime s =
     (let studentStart = parseISO (packageStartDate s);
          studentEnd = parseISO (packageEndDate s);
          workStart = (if studentStart > cycleStartTime then studentStart else cycleStartTime);
          workEnd = (if studentEnd < cycleEndTime then studentEnd else cycleEndTime)
      in (workStart, workEnd))"

text \<open>The \<^verbatim>\<open>periods\<close> array of a student who is active in the cycle.\<close>

definition splitPeriods ::
  "int \<Rightarrow> int \<Rightarrow> int \<Rightarrow> string \<Rightarrow> coachTransfer list \<Rightarrow> period list" where
  "splitPeriods workStart workEnd studentEnd currentCoachId allTransfers =
     (let sortedTs = sortedTransfers allTransfers;
          coachAtStart = coachAtWorkStart sortedTs workStart currentCoachId;
          relevant = relevantTransfers sortedTs workStart workEnd
      in buildPeriods relevant coachAtStart workStart workEnd studentEnd)"

section \<open>Crediting periods to coaches\<close>

text \<open>
  \<^verbatim>\<open>coachPayments\<close> is a \<^verbatim>\<open>Map\<close>, which iterates in the order of first insertion:
  an association list, \<^verbatim>\<open>set\<close> being \<^const>\<open>AList.update\<close> (in place for a key that is
  there, at the end for a new one) and \<^verbatim>\<open>get\<close> being \<^const>\<open>map_of\<close>.
\<close>

type_synonym coachPayments = "(string \<times> coachData) list"

text \<open>\<^verbatim>\<open>differenceInDays(period.end, period.start) + 1\<close>.\<close>

definition periodDays :: "period \<Rightarrow> int" where
  "periodDays p = (periodEnd p - periodStart p) + 1"

text \<open>
  One turn of the loop \<^verbatim>\<open>for (const period of periods)\<close>: a period whose coach is not
  a key of the map is passed over by the guard \<^verbatim>\<open>if (coachData)\<close>. The number of days
  is an integer far below \<open>2 ^ 53\<close>, which a double holds exactly.
\<close>

definition creditPeriod :: "rat \<Rightarrow> student \<Rightarrow> period \<Rightarrow> coachPayments \<Rightarrow> coachPayments" where
  "creditPeriod dailyFee s p cp =
     (if periodStart p \<le> periodEnd p then
        (let days = periodDays p;
             amount = numTimes dailyFee (of_int days)
         in case map_of cp (periodCoach p) of
              None \<Rightarrow> cp
            | Some cd \<Rightarrow>
                AList.update (periodCoach p)
                  (cd\<lparr>breakdown := breakdown cd @
                         [\<lparr>itemStudentId = studentId s,
                           itemStudentName = firstName s @ '' '' @ lastName s,
                           itemAmount = toFixed2 amount,
                           daysWorked = days\<rparr>],
                      totalAmount := numPlus (totalAmount cd) amount\<rparr>) cp)
      else cp)"

fun creditPeriods :: "rat \<Rightarrow> student \<Rightarrow> period list \<Rightarrow> coachPayments \<Rightarrow> coachPayments" where
  "creditPeriods dailyFee s [] cp = cp"
| "creditPeriods dailyFee s (p # ps) cp = creditPeriods dailyFee s ps (creditPeriod dailyFee s p cp)"

section \<open>The route \<^verbatim>\<open>GET /api/payments/current-month\<close>\<close>

text \<open>
  The storage calls are the only steps of the route that can throw; a call that rejects is
  \<open>None\<close>, and the \<^verbatim>\<open>catch\<close> block answers with status 500.
\<close>

record storage =
  getAllCoaches :: "coach list option"
  getSettings :: "systemSettings option"
  getStudentTransferHistory :: "string \<Rightarrow> coachTransfer list option"

datatype response = Json "coachPaymentSummary list" | Status500 string

text \<open>The active students of every coach of the roster, each with that coach's identifier.\<close>

definition allStudents :: "coach list \<Rightarrow> (student \<times> string) list" where
  "allStudents coaches =
     concat (map (\<lambda>c. map (\<lambda>s. (s, coachId c)) (filter (\<lambda>s. isActive s = 1) (students c))) coaches)"

text \<open>The body of the loop that seeds the map: \<^verbatim>\<open>coachPayments.set(coach.id, {...})\<close>.\<close>

definition seedCoach :: "coachPayments \<Rightarrow> coach \<Rightarrow> coachPayments" where
  "seedCoach cp c =
     AList.update (coachId c)
       \<lparr>coachName = coachFirstName c @ '' '' @ coachLastName c, breakdown = [], totalAmount = 0\<rparr> cp"

definition initCoachPayments :: "coach list \<Rightarrow> coachPayments" where
  "initCoachPayments coaches = foldl seedCoach [] coaches"

text \<open>
  The loop over the students. A student whose work window is empty is passed over before
  the transfer history is read.
\<close>

fun processStudents ::
  "(string \<Rightarrow> coachTransfer list option) \<Rightarrow> rat \<Rightarrow> int \<Rightarrow> int \<Rightarrow> (student \<times> string) list
     \<Rightarrow> coachPayments \<Rightarrow> coachPayments option" where
  "processStudents history monthlyFee cs ce [] cp = Some cp"
| "processStudents history monthlyFee cs ce ((s, currentCoachId) # rest) cp =
     (let (workStart, workEnd) = workWindow cs ce s
      in if workStart > workEnd then processStudents history monthlyFee cs ce rest cp
         else (case history (studentId s) of
                 None \<Rightarrow> None
               | Some allTransfers \<Rightarrow>
                   (let periods = splitPeriods workStart workEnd (parseISO (packageEndDate s))
                                    currentCoachId allTransfers;
                        dailyFee = numDivide monthlyFee 30
                    in processStudents history monthlyFee cs ce rest
                         (creditPeriods dailyFee s periods cp))))"

text \<open>The summaries of the coaches whose breakdown is not empty, in the order of the map.\<close>

definition buildSummaries :: "coachPayments \<Rightarrow> coachPaymentSummary list" where
  "buildSummaries cp =
     map (\<lambda>(cid, cd). \<lparr>summaryCoachId = cid, summaryCoachName = coachName cd,
                        activeStudentCount = length (breakdown cd),
                        summaryTotalAmount = toFixed2 (totalAmount cd),
                        summaryBreakdown = breakdown cd\<rparr>)
       (filter (\<lambda>(cid, cd). length (breakdown cd) > 0) cp)"

definition paymentsCurrentMonth :: "storage \<Rightarrow> instant \<Rightarrow> response" where
  "paymentsCurrentMonth st today =
     (case getAllCoaches st of
        None \<Rightarrow> Status500 ''Failed to calculate payments''
      | Some coaches \<Rightarrow>
     (case getSettings st of
        None \<Rightarrow> Status500 ''Failed to calculate payments''
      | Some settings \<Rightarrow>
          (let monthlyFee = parseFloat (coachMonthlyFee settings);
               paymentDay = globalPaymentDay settings;
               c = resolveCycle today paymentDay
           in case processStudents (getStudentTransferHistory st) monthlyFee
                     (getTime (cycleStart c)) (getTime (cycleEnd c))
                     (allStudents coaches) (initCoachPayments coaches) of
                None \<Rightarrow> Status500 ''Failed to calculate payments''
              | Some cp \<Rightarrow> Json (buildSummaries cp))))"

section \<open>Notions of the specification\<close>

text \<open>
  The payment day \<open>d\<close> clamped to the last valid day of month \<open>m\<close> of year \<open>y\<close>
  (a month index outside 0..11 counts on into the neighbouring years).
\<close>

definition clampedPaymentDate :: "int \<Rightarrow> int \<Rightarrow> int \<Rightarrow> jsdate" where
  "clampedPaymentDate y m d =
     \<lparr>fullYear = y + m div 12, monthIndex = m mod 12,
      dayOfMonth = min d (daysInMonth (y + m div 12) (m mod 12))\<rparr>"

text \<open>The number of days of a cycle, both ends counted.\<close>

definition cycleLength :: "cycle \<Rightarrow> int" where
  "cycleLength c = getTime (cycleEnd c) - getTime (cycleStart c) + 1"

text \<open>
  A list of periods that tiles the days \<open>a..b\<close>: the first starts on \<open>a\<close>, each next one
  starts the day after the one before ends, the last ends on \<open>b\<close>, and none is empty.
\<close>

fun tiling :: "int \<Rightarrow> int \<Rightarrow> period list \<Rightarrow> bool" where
  "tiling a b [] \<longleftrightarrow> a = b + 1"
| "tiling a b (p # ps) \<longleftrightarrow> periodStart p = a \<and> a \<le> periodEnd p \<and> tiling (periodEnd p + 1) b ps"

text \<open>
  All periods the route produces in one run: those of every student whose work window is
  not empty, in the order of processing.
\<close>

fun producedPeriods ::
  "(string \<Rightarrow> coachTransfer list option) \<Rightarrow> int \<Rightarrow> int \<Rightarrow> (student \<times> string) list \<Rightarrow> period list" where
  "producedPeriods history cs ce [] = []"
| "producedPeriods history cs ce ((s, currentCoachId) # rest) =
     (let (workStart, workEnd) = workWindow cs ce s
      in if workStart > workEnd then []
         else (case history (studentId s) of
                 None \<Rightarrow> []
               | Some allTransfers \<Rightarrow>
                   splitPeriods workStart workEnd (parseISO (packageEndDate s)) currentCoachId allTransfers))
     @ producedPeriods history cs ce rest"

section \<open>Example data\<close>

text \<open>
  One student with a package from 2024-01-10 to 2024-07-10, coaches A, B and C, and the
  cycle 2024-02-29 .. 2024-03-28 (days 19782 .. 19810) that payment day 28 gives on
  2024-03-15.
\<close>

definition studentSu :: student where
  "studentSu = \<lparr>studentId = ''s1'', firstName = ''Su'', lastName = ''Kaya'',
     packageStartDate = \<lparr>isoYear = 2024, isoMonth = 1, isoDay = 10\<rparr>,
     packageEndDate = \<lparr>isoYear = 2024, isoMonth = 7, isoDay = 10\<rparr>, isActive = 1\<rparr>"

definition transferToB :: coachTransfer where
  "transferToB = \<lparr>transferStudentId = ''s1'', oldCoachId = ''A'', newCoachId = ''B'',
                   transferDate = \<lparr>isoYear = 2024, isoMonth = 3, isoDay = 5\<rparr>\<rparr>"

definition transferBackToA :: coachTransfer where
  "transferBackToA = \<lparr>transferStudentId = ''s1'', oldCoachId = ''B'', newCoachId = ''A'',
                   transferDate = \<lparr>isoYear = 2024, isoMonth = 3, isoDay = 20\<rparr>\<rparr>"

definition sameDateA :: coachTransfer where
  "sameDateA = \<lparr>transferStudentId = ''s1'', oldCoachId = ''A'', newCoachId = ''B'',
                 transferDate = \<lparr>isoYear = 2024, isoMonth = 3, isoDay = 10\<rparr>\<rparr>"

definition sameDateB :: coachTransfer where
  "sameDateB = \<lparr>transferStudentId = ''s1'', oldCoachId = ''B'', newCoachId = ''C'',
                 transferDate = \<lparr>isoYear = 2024, isoMonth = 3, isoDay = 10\<rparr>\<rparr>"

definition rosterABC :: "coach list" where
  "rosterABC =
     [\<lparr>coachId = ''A'', coachFirstName = ''Ada'', coachLastName = ''Ay'', students = [studentSu]\<rparr>,
      \<lparr>coachId = ''B'', coachFirstName = ''Bora'', coachLastName = ''Bal'', students = []\<rparr>,
      \<lparr>coachId = ''C'', coachFirstName = ''Can'', coachLastName = ''Cam'', students = []\<rparr>]"

definition awayAndBack :: storage where
  "awayAndBack =
     \<lparr>getAllCoaches = Some rosterABC,
      getSettings = Some \<lparr>coachMonthlyFee = 1100, globalPaymentDay = 28\<rparr>,
      getStudentTransferHistory = (\<lambda>i.
        Some [transferBackToA, transferToB])\<rparr>"

definition march15 :: instant where
  "march15 = \<lparr>nowYear = 2024, nowMonth = 2, nowDate = 15, nowMillis = 36000000\<rparr>"

definition awayAndBackSummaries :: "coachPaymentSummary list" where
  "awayAndBackSummaries =
     [\<lparr>summaryCoachId = ''A'', summaryCoachName = ''Ada Ay'', activeStudentCount = 2,
       summaryTotalAmount = 51333,
       summaryBreakdown =
         [\<lparr>itemStudentId = ''s1'', itemStudentName = ''Su Kaya'', itemAmount = 18333, daysWorked = 5\<rparr>,
          \<lparr>itemStudentId = ''s1'', itemStudentName = ''Su Kaya'', itemAmount = 33000, daysWorked = 9\<rparr>]\<rparr>,
      \<lparr>summaryCoachId = ''B'', summaryCoachName = ''Bora Bal'', activeStudentCount = 1,
       summaryTotalAmount = 55000,
       summaryBreakdown =
         [\<lparr>itemStudentId = ''s1'', itemStudentName = ''Su Kaya'', itemAmount = 55000, daysWorked = 15\<rparr>]\<rparr>]"

definition rosterA :: "coach list" where
  "rosterA = [\<lparr>coachId = ''A'', coachFirstName = ''Ada'', coachLastName = ''Ay'', students = [studentSu]\<rparr>]"

definition fromArchivedCoach :: storage where
  "fromArchivedCoach =
     \<lparr>getAllCoaches = Some rosterA,
      getSettings = Some \<lparr>coachMonthlyFee = 1100, globalPaymentDay = 28\<rparr>,
      getStudentTransferHistory = (\<lambda>i.
        Some [\<lparr>transferStudentId = ''s1'', oldCoachId = ''B'', newCoachId = ''A'',
                transferDate = \<lparr>isoYear = 2024, isoMonth = 3, isoDay = 10\<rparr>\<rparr>])\<rparr>"

definition paymentDayZero :: storage where
  "paymentDayZero =
     \<lparr>getAllCoaches = Some rosterA,
      getSettings = Some \<lparr>coachMonthlyFee = 1100, globalPaymentDay = 0\<rparr>,
      getStudentTransferHistory = (\<lambda>i. Some [])\<rparr>"

definition noTransfers :: storage where
  "noTransfers =
     \<lparr>getAllCoaches = Some rosterA,
      getSettings = Some \<lparr>coachMonthlyFee = 1100, globalPaymentDay = 28\<rparr>,
      getStudentTransferHistory = (\<lambda>i. Some [])\<rparr>"

text \<open>On 2024-05-15 payment day 28 gives the cycle 2024-04-29 .. 2024-05-28 of 30 days.\<close>

definition may15 :: instant where
  "may15 = \<lparr>nowYear = 2024, nowMonth = 4, nowDate = 15, nowMillis = 36000000\<rparr>"

definition monthlyFeeZero :: storage where
  "monthlyFeeZero =
     \<lparr>getAllCoaches = Some rosterA,
      getSettings = Some \<lparr>coachMonthlyFee = 0, globalPaymentDay = 28\<rparr>,
      getStudentTransferHistory = (\<lambda>i. Some [])\<rparr>"

section \<open>Calendar arithmetic\<close>

lemma div_step:
  fixes a n :: int
  assumes "0 < n"
  shows "(a + 1) div n = a div n + (if (a + 1) mod n = 0 then 1 else 0)"
proof -
  define q where "q = a div n"
  define r where "r = a mod n"
  have a: "a = q * n + r" by (simp add: q_def r_def)
  have r: "0 \<le> r" "r < n" using assms by (simp_all add: r_def)
  show ?thesis
  proof (cases "r + 1 < n")
    case True
    have s: "a + 1 = q * n + (r + 1)" using a by simp
    have d: "(q * n + (r + 1)) div n = q" using True r assms by (simp add: div_pos_pos_trivial)
    have m: "(q * n + (r + 1)) mod n = r + 1" using True r assms by (simp add: mod_pos_pos_trivial)
    have "(a + 1) div n = q" "(a + 1) mod n = r + 1" using d m unfolding s by simp_all
    then show ?thesis using r unfolding q_def by simp
  next
    case False
    then have e: "r + 1 = n" using r by simp
    have s: "a + 1 = (q + 1) * n" using a e by (simp add: algebra_simps)
    have "(a + 1) div n = q + 1" "(a + 1) mod n = 0" using assms unfolding s by simp_all
    then show ?thesis unfolding q_def by simp
  qed
qed

lemma leap_step: "dayFromYear (y + 1) = dayFromYear y + (if isLeapYear y then 366 else 365)"
proof -
  have m4: "(y - 1968) mod 4 = 0 \<longleftrightarrow> y mod 4 = 0" by presburger
  have m100: "(y - 1900) mod 100 = 0 \<longleftrightarrow> y mod 100 = 0" by presburger
  have "(y - 1600) mod 400 = (y + (-4) * 400) mod 400" by simp
  also have "\<dots> = y mod 400" by (rule mod_mult_self1)
  finally have m400: "(y - 1600) mod 400 = 0 \<longleftrightarrow> y mod 400 = 0" by simp
  have d1: "y mod 100 = 0" if "y mod 400 = 0"
  proof -
    from that have "400 dvd y" by (simp add: dvd_eq_mod_eq_0)
    moreover have "(100::int) dvd 400" by simp
    ultimately have "100 dvd y" using dvd_trans by blast
    then show ?thesis by (simp add: dvd_eq_mod_eq_0)
  qed
  have d2: "y mod 100 = 0 \<Longrightarrow> y mod 4 = 0" by presburger
  have a: "(y - 1968) div 4 = (y - 1969) div 4 + (if y mod 4 = 0 then 1 else 0)"
    using div_step [of 4 "y - 1969"] m4 by simp
  have b: "(y - 1900) div 100 = (y - 1901) div 100 + (if y mod 100 = 0 then 1 else 0)"
    using div_step [of 100 "y - 1901"] m100 by simp
  have c: "(y - 1600) div 400 = (y - 1601) div 400 + (if y mod 400 = 0 then 1 else 0)"
    using div_step [of 400 "y - 1601"] m400 by simp
  have e: "dayFromYear (y + 1) = 365 * (y - 1969) + (y - 1968) div 4 - (y - 1900) div 100 + (y - 1600) div 400"
    by (simp add: dayFromYear_def)
  show ?thesis
  proof (cases "y mod 4 = 0")
    case False
    then have "y mod 100 \<noteq> 0" "y mod 400 \<noteq> 0" using d1 d2 by auto
    with False show ?thesis unfolding e a b c by (simp add: dayFromYear_def isLeapYear_def)
  next
    case True
    show ?thesis
    proof (cases "y mod 100 = 0")
      case False
      then have "y mod 400 \<noteq> 0" using d1 by auto
      with True False show ?thesis unfolding e a b c by (simp add: dayFromYear_def isLeapYear_def)
    next
      case h: True
      show ?thesis using True h unfolding e a b c by (simp add: dayFromYear_def isLeapYear_def)
    qed
  qed
qed

lemma daysInMonth_bounds: "28 \<le> daysInMonth y m" "daysInMonth y m \<le> 31"
  by (simp_all add: daysInMonth_def)

lemma makeDay_month: "0 \<le> m \<Longrightarrow> m < 12 \<Longrightarrow> makeDay y m d = dayFromYear y + daysBeforeMonth y m + d - 1"
  by (simp add: makeDay_def)

lemma daysBeforeMonth_step:
  assumes "0 \<le> m" "m < 11"
  shows "daysBeforeMonth y (m + 1) = daysBeforeMonth y m + daysInMonth y m"
proof -
  from assms have "m = 0 \<or> m = 1 \<or> m = 2 \<or> m = 3 \<or> m = 4 \<or> m = 5 \<or> m = 6 \<or> m = 7 \<or> m = 8 \<or> m = 9 \<or> m = 10"
    by arith
  then show ?thesis
    by (elim disjE) (simp_all add: daysBeforeMonth_def daysInMonth_def)
qed

lemma makeDay_next_month:
  assumes "0 \<le> m" "m < 12"
  shows "makeDay (if m = 11 then y + 1 else y) (if m = 11 then 0 else m + 1) d
         = makeDay y m (d + daysInMonth y m)"
proof (cases "m = 11")
  case True
  then show ?thesis
    by (simp add: makeDay_def leap_step daysBeforeMonth_def daysInMonth_def)
next
  case False
  with assms have "m < 11" by simp
  with assms False show ?thesis
    by (simp add: makeDay_month daysBeforeMonth_step)
qed

lemma makeDay_prev_month:
  assumes "0 \<le> m" "m < 12"
  shows "makeDay (if m = 0 then y - 1 else y) (if m = 0 then 11 else m - 1)
           (d + daysInMonth (if m = 0 then y - 1 else y) (if m = 0 then 11 else m - 1))
         = makeDay y m d"
proof (cases "m = 0")
  case True
  then show ?thesis
    using leap_step [of "y - 1"]
    by (simp add: makeDay_def daysBeforeMonth_def daysInMonth_def)
next
  case False
  with assms have "0 \<le> m - 1" "m - 1 < 11" by simp_all
  from daysBeforeMonth_step [OF this, of y] False assms show ?thesis
    by (simp add: makeDay_month)
qed

lemma normDay_props:
  "0 \<le> m \<Longrightarrow> m < 12 \<Longrightarrow>
     getTime (normDay y m d) = makeDay y m d \<and>
     0 \<le> monthIndex (normDay y m d) \<and> monthIndex (normDay y m d) < 12 \<and>
     1 \<le> dayOfMonth (normDay y m d) \<and>
     dayOfMonth (normDay y m d) \<le> daysInMonth (fullYear (normDay y m d)) (monthIndex (normDay y m d))"
proof (induction y m d rule: normDay.induct)
  case (1 y m d)
  show ?case
  proof (cases "d < 1")
    case True
    define py where "py = (if m = 0 then y - 1 else y)"
    define pm where "pm = (if m = 0 then 11 else m - 1)"
    have pm: "0 \<le> pm" "pm < 12" using "1.prems" by (simp_all add: pm_def)
    have eq: "normDay y m d = normDay py pm (d + daysInMonth py pm)"
      using True by (subst normDay.simps) (simp add: py_def pm_def Let_def)
    have ih: "getTime (normDay py pm (d + daysInMonth py pm)) = makeDay py pm (d + daysInMonth py pm) \<and>
     0 \<le> monthIndex (normDay py pm (d + daysInMonth py pm)) \<and> monthIndex (normDay py pm (d + daysInMonth py pm)) < 12 \<and>
     1 \<le> dayOfMonth (normDay py pm (d + daysInMonth py pm)) \<and>
     dayOfMonth (normDay py pm (d + daysInMonth py pm)) \<le> daysInMonth (fullYear (normDay py pm (d + daysInMonth py pm))) (monthIndex (normDay py pm (d + daysInMonth py pm)))"
      using "1.IH"(1) [OF True py_def pm_def pm] .
    have "makeDay py pm (d + daysInMonth py pm) = makeDay y m d"
      unfolding py_def pm_def using makeDay_prev_month [OF "1.prems"] .
    with ih show ?thesis unfolding eq by simp
  next
    case False
    show ?thesis
    proof (cases "daysInMonth y m < d")
      case True
      define ny where "ny = (if m = 11 then y + 1 else y)"
      define nm where "nm = (if m = 11 then 0 else m + 1)"
      have nm: "0 \<le> nm" "nm < 12" using "1.prems" by (simp_all add: nm_def)
      have eq: "normDay y m d = normDay ny nm (d - daysInMonth y m)"
        using False True by (subst normDay.simps) (simp add: ny_def nm_def Let_def)
      have ih: "getTime (normDay ny nm (d - daysInMonth y m)) = makeDay ny nm (d - daysInMonth y m) \<and>
     0 \<le> monthIndex (normDay ny nm (d - daysInMonth y m)) \<and> monthIndex (normDay ny nm (d - daysInMonth y m)) < 12 \<and>
     1 \<le> dayOfMonth (normDay ny nm (d - daysInMonth y m)) \<and>
     dayOfMonth (normDay ny nm (d - daysInMonth y m)) \<le> daysInMonth (fullYear (normDay ny nm (d - daysInMonth y m))) (monthIndex (normDay ny nm (d - daysInMonth y m)))"
        using "1.IH"(2) [OF False True ny_def nm_def nm] .
      have "makeDay ny nm (d - daysInMonth y m) = makeDay y m d"
        unfolding ny_def nm_def using makeDay_next_month [OF "1.prems", of y "d - daysInMonth y m"] by simp
      with ih show ?thesis unfolding eq by simp
    next
      case F2: False
      have eq: "normDay y m d = \<lparr>fullYear = y, monthIndex = m, dayOfMonth = d\<rparr>"
        using False F2 by (subst normDay.simps) simp
      show ?thesis unfolding eq using False F2 "1.prems" by (simp add: getTime_def)
    qed
  qed
qed

lemma month_succ:
  fixes m :: int
  shows "(if (m + 1) mod 12 = 0 then y + (m + 1) div 12 - 1 else y + (m + 1) div 12) = y + m div 12"
    and "(if (m + 1) mod 12 = 0 then 11 else (m + 1) mod 12 - 1) = m mod 12"
proof -
  show "(if (m + 1) mod 12 = 0 then y + (m + 1) div 12 - 1 else y + (m + 1) div 12) = y + m div 12"
    using div_step [of 12 m] by simp
  show "(if (m + 1) mod 12 = 0 then 11 else (m + 1) mod 12 - 1) = m mod 12"
    by presburger
qed

lemma normDay_in_month:
  "1 \<le> d \<Longrightarrow> d \<le> daysInMonth y m \<Longrightarrow> normDay y m d = \<lparr>fullYear = y, monthIndex = m, dayOfMonth = d\<rparr>"
  by (subst normDay.simps) simp

lemma newDate_first: "newDate y m 1 = \<lparr>fullYear = y + m div 12, monthIndex = m mod 12, dayOfMonth = 1\<rparr>"
  unfolding newDate_def using daysInMonth_bounds(1) [of "y + m div 12" "m mod 12"]
  by (intro normDay_in_month) simp_all

lemma lastDay_eq: "dayOfMonth (newDate y (m + 1) 0) = daysInMonth (y + m div 12) (m mod 12)"
proof -
  have "newDate y (m + 1) 0 = normDay (y + m div 12) (m mod 12) (daysInMonth (y + m div 12) (m mod 12))"
    unfolding newDate_def
    by (subst normDay.simps) (simp add: Let_def month_succ)
  also have "\<dots> = \<lparr>fullYear = y + m div 12, monthIndex = m mod 12, dayOfMonth = daysInMonth (y + m div 12) (m mod 12)\<rparr>"
    using daysInMonth_bounds(1) [of "y + m div 12" "m mod 12"]
    by (intro normDay_in_month) simp_all
  finally show ?thesis by simp
qed

lemma calculatePaymentDate_norm:
  "calculatePaymentDate y m d =
     normDay (y + m div 12) (m mod 12) (min d (daysInMonth (y + m div 12) (m mod 12)))"
  by (simp add: calculatePaymentDate_def Let_def lastDay_eq newDate_first setDate_def)
     (simp add: newDate_def)

lemma calculatePaymentDate_clamped:
  assumes "1 \<le> d"
  shows "calculatePaymentDate y m d = clampedPaymentDate y m d"
  unfolding calculatePaymentDate_norm clampedPaymentDate_def
  using assms daysInMonth_bounds(1) [of "y + m div 12" "m mod 12"]
  by (intro normDay_in_month) simp_all

lemma getTime_newDate: "getTime (newDate y m d) = makeDay y m d"
proof -
  have "getTime (newDate y m d) = makeDay (y + m div 12) (m mod 12) d"
    unfolding newDate_def using normDay_props [of "m mod 12" "y + m div 12" d] by simp
  also have "\<dots> = makeDay y m d" by (simp add: makeDay_def)
  finally show ?thesis .
qed

lemma makeDay_shift: "makeDay y m (d + k) = makeDay y m d + k"
  by (simp add: makeDay_def Let_def)

lemma getTime_setDate_succ: "getTime (setDate dt (dayOfMonth dt + 1)) = getTime dt + 1"
  unfolding setDate_def getTime_newDate by (simp add: getTime_def makeDay_shift)

text \<open>
  Setting the date of the month one back moves the time value one day back, across the
  borders of months and years too.
\<close>

lemma getTime_setDate_pred: "getTime (setDate dt (dayOfMonth dt - 1)) = getTime dt - 1"
  unfolding setDate_def getTime_newDate
  using makeDay_shift [of "fullYear dt" "monthIndex dt" "dayOfMonth dt" "-1"]
  by (simp add: getTime_def)

section \<open>The resolved cycle\<close>

lemma resolveCycle_end:
  assumes "1 \<le> pd"
  shows "cycleEnd (resolveCycle today pd) =
     (if beforeInstant (clampedPaymentDate (nowYear today) (nowMonth today) pd) today
      then clampedPaymentDate (nowYear today) (nowMonth today + 1) pd
      else clampedPaymentDate (nowYear today) (nowMonth today) pd)"
  using assms by (simp add: resolveCycle_def Let_def calculatePaymentDate_clamped)

lemma resolveCycle_end_month:
  assumes "1 \<le> pd"
  shows "0 \<le> monthIndex (cycleEnd (resolveCycle today pd)) \<and>
         monthIndex (cycleEnd (resolveCycle today pd)) < 12 \<and>
         dayOfMonth (cycleEnd (resolveCycle today pd)) =
           min pd (daysInMonth (fullYear (cycleEnd (resolveCycle today pd)))
                               (monthIndex (cycleEnd (resolveCycle today pd))))"
  unfolding resolveCycle_end [OF assms] by (simp add: clampedPaymentDate_def)

lemma resolveCycle_start:
  assumes "1 \<le> pd"
  shows "cycleStart (resolveCycle today pd) =
     (let e = cycleEnd (resolveCycle today pd);
          p = clampedPaymentDate (if monthIndex e = 0 then fullYear e - 1 else fullYear e)
                (if monthIndex e = 0 then 11 else monthIndex e - 1) pd
      in setDate p (dayOfMonth p + 1))"
  using assms by (simp add: resolveCycle_def Let_def calculatePaymentDate_clamped)

lemma clamped_prev_alt:
  assumes "0 \<le> m" "m < 12"
  shows "clampedPaymentDate (if m = 0 then y - 1 else y) (if m = 0 then 11 else m - 1) pd
         = clampedPaymentDate y (m - 1) pd"
proof (cases "m = 0")
  case True
  then show ?thesis by (simp add: clampedPaymentDate_def)
next
  case False
  with assms have "(m - 1) div 12 = 0" "(m - 1) mod 12 = m - 1" by simp_all
  with False show ?thesis by (simp add: clampedPaymentDate_def)
qed

lemma cycle_length_formula:
  fixes y m pd :: int
  assumes "0 \<le> m" "m < 12"
  defines "py \<equiv> (if m = 0 then y - 1 else y)"
  defines "pm \<equiv> (if m = 0 then 11 else m - 1)"
  shows "makeDay y m (min pd (daysInMonth y m)) - (makeDay py pm (min pd (daysInMonth py pm)) + 1) + 1
         = daysInMonth py pm + min pd (daysInMonth y m) - min pd (daysInMonth py pm)"
proof -
  have "makeDay py pm (min pd (daysInMonth y m) + daysInMonth py pm) = makeDay y m (min pd (daysInMonth y m))"
    unfolding py_def pm_def by (rule makeDay_prev_month [OF assms(1,2)])
  moreover have "makeDay py pm (min pd (daysInMonth y m) + daysInMonth py pm)
     = makeDay py pm 0 + (min pd (daysInMonth y m) + daysInMonth py pm)"
    using makeDay_shift [of py pm 0 "min pd (daysInMonth y m) + daysInMonth py pm"] by simp
  moreover have "makeDay py pm (min pd (daysInMonth py pm)) = makeDay py pm 0 + min pd (daysInMonth py pm)"
    using makeDay_shift [of py pm 0 "min pd (daysInMonth py pm)"] by simp
  ultimately show ?thesis by simp
qed

lemma length_bounds:
  fixes a b pd :: int
  assumes "28 \<le> a" "a \<le> 31" "28 \<le> b" "b \<le> 31"
  shows "28 \<le> a + min pd b - min pd a" "a + min pd b - min pd a \<le> 31"
  using assms by (auto simp: min_def)

text \<open>
  What holds of the resolved cycle for every moment \<open>today\<close> and every payment day from 1
  to 31: the cycle ends on the payment day clamped to its month, in today's month or in the
  next one as the route's comparison \<^verbatim>\<open>currentPaymentDate < today\<close> decides; it starts the
  day after the clamped payment date of the calendar month before (December of the year
  before, for a cycle that ends in January); the start is not after the end, and the cycle
  has 28 to 31 days. On 2024-03-15, at any time of day, payment day 28 gives the cycle
  2024-02-29 .. 2024-03-28.
\<close>

lemma resolveCycle_properties:
  assumes "1 \<le> paymentDay" and "paymentDay \<le> 31"
  shows "(let c = resolveCycle today paymentDay;
              e = cycleEnd c;
              candidate = clampedPaymentDate (nowYear today) (nowMonth today) paymentDay;
              prev = clampedPaymentDate (fullYear e) (monthIndex e - 1) paymentDay
          in e = (if beforeInstant candidate today
                  then clampedPaymentDate (nowYear today) (nowMonth today + 1) paymentDay
                  else candidate)
           \<and> fullYear prev = (if monthIndex e = 0 then fullYear e - 1 else fullYear e)
           \<and> monthIndex prev = (if monthIndex e = 0 then 11 else monthIndex e - 1)
           \<and> getTime (cycleStart c) = getTime prev + 1
           \<and> getTime (cycleStart c) \<le> getTime e
           \<and> 28 \<le> cycleLength c \<and> cycleLength c \<le> 31)
         \<and> (\<forall>ms. 0 \<le> ms \<and> ms < msPerDay \<longrightarrow>
               resolveCycle \<lparr>nowYear = 2024, nowMonth = 2, nowDate = 15, nowMillis = ms\<rparr> 28
                 = \<lparr>cycleStart = \<lparr>fullYear = 2024, monthIndex = 1, dayOfMonth = 29\<rparr>,
                    cycleEnd = \<lparr>fullYear = 2024, monthIndex = 2, dayOfMonth = 28\<rparr>\<rparr>)"
proof -
  define c where "c = resolveCycle today paymentDay"
  define e where "e = cycleEnd c"
  define y where "y = fullYear e"
  define m where "m = monthIndex e"
  define py where "py = (if m = 0 then y - 1 else y)"
  define pm where "pm = (if m = 0 then 11 else m - 1)"
  define prev where "prev = clampedPaymentDate y (m - 1) paymentDay"
  have e_eq: "e = (if beforeInstant (clampedPaymentDate (nowYear today) (nowMonth today) paymentDay) today
                  then clampedPaymentDate (nowYear today) (nowMonth today + 1) paymentDay
                  else clampedPaymentDate (nowYear today) (nowMonth today) paymentDay)"
    unfolding e_def c_def by (rule resolveCycle_end [OF assms(1)])
  have m: "0 \<le> m" "m < 12" and de: "dayOfMonth e = min paymentDay (daysInMonth y m)"
    using resolveCycle_end_month [OF assms(1), of today] unfolding m_def y_def e_def c_def by simp_all
  have pm: "0 \<le> pm" "pm < 12" using m by (simp_all add: pm_def)
  have prev_eq: "prev = clampedPaymentDate py pm paymentDay"
    unfolding prev_def py_def pm_def by (rule clamped_prev_alt [OF m, symmetric])
  have prev_fields: "fullYear prev = py" "monthIndex prev = pm"
    "dayOfMonth prev = min paymentDay (daysInMonth py pm)"
    using pm unfolding prev_eq by (simp_all add: clampedPaymentDate_def)
  have start_eq: "cycleStart c = setDate prev (dayOfMonth prev + 1)"
    using resolveCycle_start [OF assms(1), of today]
    unfolding c_def [symmetric] Let_def e_def [symmetric] y_def [symmetric] m_def [symmetric]
      py_def [symmetric] pm_def [symmetric] prev_eq [symmetric] .
  have gs: "getTime (cycleStart c) = getTime prev + 1"
    unfolding start_eq by (rule getTime_setDate_succ)
  have ge: "getTime e = makeDay y m (min paymentDay (daysInMonth y m))"
    by (simp add: getTime_def y_def m_def de [unfolded y_def m_def])
  have gp: "getTime prev = makeDay py pm (min paymentDay (daysInMonth py pm))"
    by (simp add: getTime_def prev_fields)
  have len: "cycleLength c = daysInMonth py pm + min paymentDay (daysInMonth y m) - min paymentDay (daysInMonth py pm)"
    unfolding cycleLength_def e_def [symmetric] gs ge gp py_def pm_def
    by (rule cycle_length_formula [OF m])
  have lb: "28 \<le> cycleLength c" and ub: "cycleLength c \<le> 31"
    unfolding len
    using length_bounds [OF daysInMonth_bounds [of py pm] daysInMonth_bounds [of y m], of paymentDay]
    by simp_all
  have ord: "getTime (cycleStart c) \<le> getTime e"
    using lb unfolding cycleLength_def e_def by simp
  have general: "(let c = resolveCycle today paymentDay;
              e = cycleEnd c;
              candidate = clampedPaymentDate (nowYear today) (nowMonth today) paymentDay;
              prev = clampedPaymentDate (fullYear e) (monthIndex e - 1) paymentDay
          in e = (if beforeInstant candidate today
                  then clampedPaymentDate (nowYear today) (nowMonth today + 1) paymentDay
                  else candidate)
           \<and> fullYear prev = (if monthIndex e = 0 then fullYear e - 1 else fullYear e)
           \<and> monthIndex prev = (if monthIndex e = 0 then 11 else monthIndex e - 1)
           \<and> getTime (cycleStart c) = getTime prev + 1
           \<and> getTime (cycleStart c) \<le> getTime e
           \<and> 28 \<le> cycleLength c \<and> cycleLength c \<le> 31)"
    unfolding Let_def c_def [symmetric] e_def [symmetric] y_def [symmetric] m_def [symmetric]
      prev_def [symmetric]
    using e_eq prev_fields(1,2) gs ord lb ub
    unfolding py_def pm_def by simp
  have inst: "resolveCycle \<lparr>nowYear = 2024, nowMonth = 2, nowDate = 15, nowMillis = ms\<rparr> 28
                 = \<lparr>cycleStart = \<lparr>fullYear = 2024, monthIndex = 1, dayOfMonth = 29\<rparr>,
                    cycleEnd = \<lparr>fullYear = 2024, monthIndex = 2, dayOfMonth = 28\<rparr>\<rparr>"
    if "0 \<le> ms" "ms < msPerDay" for ms
  proof -
    have nb: "\<not> beforeInstant (clampedPaymentDate 2024 2 28)
               \<lparr>nowYear = 2024, nowMonth = 2, nowDate = 15, nowMillis = ms\<rparr>"
      using that
      by (simp add: beforeInstant_def clampedPaymentDate_def getTime_def makeDay_def
          dayFromYear_def daysBeforeMonth_def daysInMonth_def isLeapYear_def msPerDay_def)
    have sd: "setDate \<lparr>fullYear = 2024, monthIndex = 1, dayOfMonth = 28\<rparr> 29
              = \<lparr>fullYear = 2024, monthIndex = 1, dayOfMonth = 29\<rparr>"
      by (simp add: setDate_def newDate_def normDay_in_month daysInMonth_def isLeapYear_def)
    have ce: "cycleEnd (resolveCycle \<lparr>nowYear = 2024, nowMonth = 2, nowDate = 15, nowMillis = ms\<rparr> 28)
        = \<lparr>fullYear = 2024, monthIndex = 2, dayOfMonth = 28\<rparr>"
      using nb by (simp add: resolveCycle_end) (simp add: clampedPaymentDate_def daysInMonth_def)
    have "cycleStart (resolveCycle \<lparr>nowYear = 2024, nowMonth = 2, nowDate = 15, nowMillis = ms\<rparr> 28)
       = setDate (clampedPaymentDate 2024 1 28) (dayOfMonth (clampedPaymentDate 2024 1 28) + 1)"
      using resolveCycle_start [of 28 "\<lparr>nowYear = 2024, nowMonth = 2, nowDate = 15, nowMillis = ms\<rparr>"]
      unfolding ce Let_def by simp
    also have "clampedPaymentDate 2024 1 28 = \<lparr>fullYear = 2024, monthIndex = 1, dayOfMonth = 28\<rparr>"
      by (simp add: clampedPaymentDate_def daysInMonth_def isLeapYear_def)
    finally have cs: "cycleStart (resolveCycle \<lparr>nowYear = 2024, nowMonth = 2, nowDate = 15, nowMillis = ms\<rparr> 28)
        = \<lparr>fullYear = 2024, monthIndex = 1, dayOfMonth = 29\<rparr>"
      using sd by simp
    show ?thesis
      by (rule cycle.equality) (simp_all add: ce cs)
  qed
  show ?thesis using general inst by blast
qed

text \<open>
  The route's comparison in terms of calendar days: a date at local midnight lies before
  the present moment when its day is before today, and also when it is today and midnight
  has passed.
\<close>

lemma beforeInstant_calendar:
  assumes "0 \<le> nowMillis today" and "nowMillis today < msPerDay"
  shows "beforeInstant d today \<longleftrightarrow>
           getTime d < makeDay (nowYear today) (nowMonth today) (nowDate today)
         \<or> (getTime d = makeDay (nowYear today) (nowMonth today) (nowDate today)
              \<and> 0 < nowMillis today)"
  using assms unfolding beforeInstant_def msPerDay_def by auto

text \<open>
  Claim C7, where the route departs from it. The claim has the cycle end on this month's
  clamped payment date unless that date is earlier than today, as the route's own comment
  has it (the next payment day on or after today). On the payment day itself, 2024-03-28
  with payment day 28, this month's candidate is 2024-03-28, which is today and not a day
  before it. At 10:00 of that day the route still moves on to the next month and reports
  the cycle 2024-03-29 .. 2024-04-28, which does not contain today; only at midnight
  exactly does it report 2024-02-29 .. 2024-03-28.
\<close>

theorem payment_day_itself_rolls_over:
  "calculatePaymentDate 2024 2 28 = \<lparr>fullYear = 2024, monthIndex = 2, dayOfMonth = 28\<rparr>
   \<and> getTime (calculatePaymentDate 2024 2 28) = makeDay 2024 2 28
   \<and> resolveCycle \<lparr>nowYear = 2024, nowMonth = 2, nowDate = 28, nowMillis = 36000000\<rparr> 28
       = \<lparr>cycleStart = \<lparr>fullYear = 2024, monthIndex = 2, dayOfMonth = 29\<rparr>,
          cycleEnd = \<lparr>fullYear = 2024, monthIndex = 3, dayOfMonth = 28\<rparr>\<rparr>
   \<and> makeDay 2024 2 28
       < getTime (cycleStart
           (resolveCycle \<lparr>nowYear = 2024, nowMonth = 2, nowDate = 28, nowMillis = 36000000\<rparr> 28))
   \<and> resolveCycle \<lparr>nowYear = 2024, nowMonth = 2, nowDate = 28, nowMillis = 0\<rparr> 28
       = \<lparr>cycleStart = \<lparr>fullYear = 2024, monthIndex = 1, dayOfMonth = 29\<rparr>,
          cycleEnd = \<lparr>fullYear = 2024, monthIndex = 2, dayOfMonth = 28\<rparr>\<rparr>"
proof -
  have a: "calculatePaymentDate 2024 2 28 = \<lparr>fullYear = 2024, monthIndex = 2, dayOfMonth = 28\<rparr>"
    by code_simp
  have b: "getTime (calculatePaymentDate 2024 2 28) = makeDay 2024 2 28"
    by code_simp
  have c: "resolveCycle \<lparr>nowYear = 2024, nowMonth = 2, nowDate = 28, nowMillis = 36000000\<rparr> 28
       = \<lparr>cycleStart = \<lparr>fullYear = 2024, monthIndex = 2, dayOfMonth = 29\<rparr>,
          cycleEnd = \<lparr>fullYear = 2024, monthIndex = 3, dayOfMonth = 28\<rparr>\<rparr>"
    by code_simp
  have d: "makeDay 2024 2 28
       < getTime (cycleStart
           (resolveCycle \<lparr>nowYear = 2024, nowMonth = 2, nowDate = 28, nowMillis = 36000000\<rparr> 28))"
    by code_simp
  have e: "resolveCycle \<lparr>nowYear = 2024, nowMonth = 2, nowDate = 28, nowMillis = 0\<rparr> 28
       = \<lparr>cycleStart = \<lparr>fullYear = 2024, monthIndex = 1, dayOfMonth = 29\<rparr>,
          cycleEnd = \<lparr>fullYear = 2024, monthIndex = 2, dayOfMonth = 28\<rparr>\<rparr>"
    by code_simp
  show ?thesis by (intro conjI a b c d e)
qed

text \<open>
  Claim C3, as stated: on 2024-03-29 with payment day 28 the cycle would end on 2024-04-28
  and start on 2024-03-28. The route starts the cycle the day after the previous payment
  date, so the stated start is not what it computes.
\<close>

theorem march29_stated_start_counterexample:
  "\<not> (cycleEnd (resolveCycle \<lparr>nowYear = 2024, nowMonth = 2, nowDate = 29, nowMillis = 0\<rparr> 28)
          = \<lparr>fullYear = 2024, monthIndex = 3, dayOfMonth = 28\<rparr>
      \<and> cycleStart (resolveCycle \<lparr>nowYear = 2024, nowMonth = 2, nowDate = 29, nowMillis = 0\<rparr> 28)
          = \<lparr>fullYear = 2024, monthIndex = 2, dayOfMonth = 28\<rparr>)"
  by code_simp

text \<open>
  Claim C3, amended: on 2024-03-29, at any time of day, payment day 28 gives the cycle that
  ends on 2024-04-28 and starts on 2024-03-29, the day after the payment date 2024-03-28.
\<close>

theorem march29_cycle:
  assumes "0 \<le> ms"
  shows "resolveCycle \<lparr>nowYear = 2024, nowMonth = 2, nowDate = 29, nowMillis = ms\<rparr> 28
           = \<lparr>cycleStart = \<lparr>fullYear = 2024, monthIndex = 2, dayOfMonth = 29\<rparr>,
              cycleEnd = \<lparr>fullYear = 2024, monthIndex = 3, dayOfMonth = 28\<rparr>\<rparr>"
proof -
  let ?today = "\<lparr>nowYear = 2024, nowMonth = 2, nowDate = 29, nowMillis = ms\<rparr>"
  have b: "beforeInstant (clampedPaymentDate 2024 2 28) ?today"
    using assms
    by (simp add: beforeInstant_def clampedPaymentDate_def getTime_def makeDay_def
        dayFromYear_def daysBeforeMonth_def daysInMonth_def isLeapYear_def msPerDay_def)
  have ce: "cycleEnd (resolveCycle ?today 28) = \<lparr>fullYear = 2024, monthIndex = 3, dayOfMonth = 28\<rparr>"
    using b by (simp add: resolveCycle_end) (simp add: clampedPaymentDate_def daysInMonth_def)
  have sd: "setDate \<lparr>fullYear = 2024, monthIndex = 2, dayOfMonth = 28\<rparr> 29
              = \<lparr>fullYear = 2024, monthIndex = 2, dayOfMonth = 29\<rparr>"
    by (simp add: setDate_def newDate_def normDay_in_month daysInMonth_def)
  have "cycleStart (resolveCycle ?today 28)
       = setDate (clampedPaymentDate 2024 2 28) (dayOfMonth (clampedPaymentDate 2024 2 28) + 1)"
    using resolveCycle_start [of 28 ?today] unfolding ce Let_def by simp
  also have "clampedPaymentDate 2024 2 28 = \<lparr>fullYear = 2024, monthIndex = 2, dayOfMonth = 28\<rparr>"
    by (simp add: clampedPaymentDate_def daysInMonth_def)
  finally have cs: "cycleStart (resolveCycle ?today 28)
        = \<lparr>fullYear = 2024, monthIndex = 2, dayOfMonth = 29\<rparr>"
    using sd by simp
  show ?thesis
    by (rule cycle.equality) (simp_all add: ce cs)
qed

theorem march29_cycle_witness:
  "(0::int) \<le> 43200000 \<and>
   resolveCycle \<lparr>nowYear = 2024, nowMonth = 2, nowDate = 29, nowMillis = 43200000\<rparr> 28
     = \<lparr>cycleStart = \<lparr>fullYear = 2024, monthIndex = 2, dayOfMonth = 29\<rparr>,
        cycleEnd = \<lparr>fullYear = 2024, monthIndex = 3, dayOfMonth = 28\<rparr>\<rparr>"
proof -
  have h: "(0::int) \<le> 43200000" by simp
  show ?thesis using h march29_cycle [OF h] by simp
qed

section \<open>Periods of one student\<close>

lemma tiling_append: "tiling a b ps \<Longrightarrow> tiling (b + 1) c qs \<Longrightarrow> tiling a c (ps @ qs)"
  by (induction ps arbitrary: a) auto

lemma tiling_bounds:
  "tiling a b ps \<Longrightarrow> a \<le> b + 1 \<and> (\<forall>p\<in>set ps. a \<le> periodStart p \<and> periodStart p \<le> periodEnd p \<and> periodEnd p \<le> b)"
proof (induction ps arbitrary: a)
  case Nil
  then show ?case by simp
next
  case (Cons p ps)
  from Cons.prems have t: "tiling (periodEnd p + 1) b ps" and s: "periodStart p = a" "a \<le> periodEnd p"
    by simp_all
  from Cons.IH [OF t] s show ?case by force
qed

lemma tiling_sum: "tiling a b ps \<Longrightarrow> sum_list (map periodDays ps) = b - a + 1"
  by (induction ps arbitrary: a) (auto simp: periodDays_def)

lemma tiling_union: "tiling a b ps \<Longrightarrow> (\<Union>p\<in>set ps. {periodStart p..periodEnd p}) = {a..b}"
proof (induction ps arbitrary: a)
  case Nil
  then show ?case by simp
next
  case (Cons p ps)
  from Cons.prems have t: "tiling (periodEnd p + 1) b ps" and s: "periodStart p = a" "a \<le> periodEnd p"
    by simp_all
  from tiling_bounds [OF t] have "periodEnd p \<le> b" by simp
  with Cons.IH [OF t] s show ?case by auto
qed

lemma tiling_sorted: "tiling a b ps \<Longrightarrow> sorted_wrt (\<lambda>p q. periodEnd p < periodStart q) ps"
proof (induction ps arbitrary: a)
  case Nil
  then show ?case by simp
next
  case (Cons p ps)
  from Cons.prems have t: "tiling (periodEnd p + 1) b ps" by simp
  from tiling_bounds [OF t] Cons.IH [OF t] show ?case by force
qed

lemma middlePeriods_tiling:
  "r \<noteq> [] \<Longrightarrow> sorted (map transferTime r) \<Longrightarrow> \<forall>t\<in>set r. transferTime t \<le> studentEnd \<Longrightarrow>
   tiling (transferTime (hd r)) (transferTime (last r) - 1) (middlePeriods r studentEnd)"
proof (induction r studentEnd rule: middlePeriods.induct)
  case (1 c n rest studentEnd)
  have ih: "tiling (transferTime n) (transferTime (last (n # rest)) - 1) (middlePeriods (n # rest) studentEnd)"
    using "1.IH" "1.prems" by simp
  have le: "transferTime c \<le> transferTime n" "transferTime c \<le> studentEnd" "transferTime n \<le> studentEnd"
    using "1.prems" by simp_all
  show ?case
  proof (cases "transferTime c \<le> transferTime n - 1")
    case True
    with le ih show ?thesis by (simp add: Let_def)
  next
    case False
    with le have "transferTime c = transferTime n" by simp
    with False ih show ?thesis by (simp add: Let_def)
  qed
qed simp_all

lemma buildPeriods_tiling:
  assumes "workStart \<le> workEnd" "workEnd \<le> studentEnd"
    and "sorted (map transferTime r)"
    and "\<forall>t\<in>set r. workStart \<le> transferTime t \<and> transferTime t \<le> workEnd"
  shows "tiling workStart workEnd (buildPeriods r c workStart workEnd studentEnd)"
proof (cases "r = []")
  case True
  with assms(1) show ?thesis by (simp add: buildPeriods_def)
next
  case False
  then have hd_in: "hd r \<in> set r" and last_in: "last r \<in> set r" by simp_all
  have mid: "tiling (transferTime (hd r)) (transferTime (last r) - 1) (middlePeriods r studentEnd)"
  proof (rule middlePeriods_tiling [OF False assms(3)])
    show "\<forall>t\<in>set r. transferTime t \<le> studentEnd"
      using assms(2,4) by force
  qed
  have lst: "tiling (transferTime (last r) - 1 + 1) workEnd
     [\<lparr>periodCoach = newCoachId (last r), periodStart = transferTime (last r), periodEnd = workEnd\<rparr>]"
    using assms(4) last_in by simp
  have tail: "tiling (transferTime (hd r)) workEnd
     (middlePeriods r studentEnd @ [\<lparr>periodCoach = newCoachId (last r), periodStart = transferTime (last r), periodEnd = workEnd\<rparr>])"
    by (rule tiling_append [OF mid lst])
  have f: "workStart \<le> transferTime (hd r)" "transferTime (hd r) \<le> workEnd" "transferTime (last r) \<le> workEnd"
    using assms(4) hd_in last_in by simp_all
  show ?thesis
  proof (cases "workStart < transferTime (hd r)")
    case True
    have lead: "tiling workStart (transferTime (hd r) - 1)
       [\<lparr>periodCoach = c, periodStart = workStart, periodEnd = transferTime (hd r) - 1\<rparr>]"
      using True by simp
    have "tiling workStart workEnd
       ([\<lparr>periodCoach = c, periodStart = workStart, periodEnd = transferTime (hd r) - 1\<rparr>]
        @ (middlePeriods r studentEnd @ [\<lparr>periodCoach = newCoachId (last r), periodStart = transferTime (last r), periodEnd = workEnd\<rparr>]))"
      using tiling_append [OF lead] tail by simp
    then show ?thesis using False True f by (simp add: buildPeriods_def Let_def)
  next
    case F: False
    with f have "workStart = transferTime (hd r)" by simp
    then show ?thesis using False F f tail by (simp add: buildPeriods_def Let_def)
  qed
qed

lemma splitPeriods_tiling:
  assumes "workStart \<le> workEnd" "workEnd \<le> studentEnd"
  shows "tiling workStart workEnd (splitPeriods workStart workEnd studentEnd cur ts)"
  unfolding splitPeriods_def Let_def
  by (rule buildPeriods_tiling [OF assms])
     (simp_all add: relevantTransfers_def sortedTransfers_def sorted_filter)

lemma workWindow_eq:
  "workWindow cs ce s = (max (parseISO (packageStartDate s)) cs, min (parseISO (packageEndDate s)) ce)"
  by (simp add: workWindow_def Let_def max_def min_def)

text \<open>
  Claim C1. For a student whose package window meets the cycle
  (\<open>workStart = max packageStart cycleStart \<le> workEnd = min packageEnd cycleEnd\<close>), whatever
  the transfer history: each produced period ends before the next one starts (so the periods
  are pairwise disjoint and ordered by start date), none is empty, the days they cover are
  exactly \<open>workStart..workEnd\<close>, and their day counts (end minus start, plus one) add up to
  the number of days from \<open>workStart\<close> to \<open>workEnd\<close>, both counted.
\<close>

theorem work_periods_partition:
  assumes "workWindow cs ce s = (workStart, workEnd)" and "workStart \<le> workEnd"
  shows "(let periods = splitPeriods workStart workEnd (parseISO (packageEndDate s)) currentCoachId allTransfers
          in workStart = max (parseISO (packageStartDate s)) cs
           \<and> workEnd = min (parseISO (packageEndDate s)) ce
           \<and> sorted_wrt (\<lambda>p q. periodEnd p < periodStart q) periods
           \<and> (\<forall>p\<in>set periods. periodStart p \<le> periodEnd p)
           \<and> sorted (map periodStart periods)
           \<and> (\<Union>p\<in>set periods. {periodStart p..periodEnd p}) = {workStart..workEnd}
           \<and> sum_list (map periodDays periods) = workEnd - workStart + 1)"
proof -
  define periods where "periods = splitPeriods workStart workEnd (parseISO (packageEndDate s)) currentCoachId allTransfers"
  have w: "workStart = max (parseISO (packageStartDate s)) cs" "workEnd = min (parseISO (packageEndDate s)) ce"
    using assms(1) unfolding workWindow_eq by simp_all
  then have "workEnd \<le> parseISO (packageEndDate s)" by simp
  then have t: "tiling workStart workEnd periods"
    unfolding periods_def by (rule splitPeriods_tiling [OF assms(2)])
  have sw: "sorted_wrt (\<lambda>p q. periodEnd p < periodStart q) periods" by (rule tiling_sorted [OF t])
  have b: "\<forall>p\<in>set periods. periodStart p \<le> periodEnd p" using tiling_bounds [OF t] by blast
  have "sorted_wrt (\<lambda>p q. periodStart p \<le> periodStart q) periods"
    using sw b by (induction periods) force+
  then have ss: "sorted (map periodStart periods)" by (simp add: sorted_map)
  show ?thesis
    unfolding Let_def periods_def [symmetric]
    using w sw b ss tiling_union [OF t] tiling_sum [OF t] by simp
qed

section \<open>Crediting\<close>

lemma map_of_Some_key: "map_of cp k = Some v \<Longrightarrow> k \<in> set (map fst cp)"
  by (metis map_of_eq_None_iff option.distinct(1) set_map)

lemma creditPeriod_keys: "map fst (creditPeriod fee s p cp) = map fst cp"
  by (auto simp: creditPeriod_def Let_def update_keys dest: map_of_Some_key split: option.splits)

lemma creditPeriod_other:
  "k \<noteq> periodCoach p \<Longrightarrow> map_of (creditPeriod fee s p cp) k = map_of cp k"
  by (simp add: creditPeriod_def Let_def update_conv' split: option.splits)

lemma creditPeriod_absent:
  "map_of cp (periodCoach p) = None \<Longrightarrow> creditPeriod fee s p cp = cp"
  by (simp add: creditPeriod_def Let_def)

lemma creditPeriod_present:
  assumes "map_of cp (periodCoach p) = Some cd" "periodStart p \<le> periodEnd p"
  shows "map_of (creditPeriod fee s p cp) (periodCoach p) =
     Some (cd\<lparr>breakdown := breakdown cd @
                 [\<lparr>itemStudentId = studentId s,
                   itemStudentName = firstName s @ '' '' @ lastName s,
                   itemAmount = toFixed2 (numTimes fee (of_int (periodDays p))),
                   daysWorked = periodDays p\<rparr>],
              totalAmount := numPlus (totalAmount cd) (numTimes fee (of_int (periodDays p)))\<rparr>)"
  using assms by (simp add: creditPeriod_def Let_def update_conv')

lemma creditPeriods_keys: "map fst (creditPeriods fee s ps cp) = map fst cp"
  by (induction ps arbitrary: cp) (simp_all add: creditPeriod_keys)

lemma creditPeriods_other:
  "k \<notin> periodCoach ` set ps \<Longrightarrow> map_of (creditPeriods fee s ps cp) k = map_of cp k"
  by (induction ps arbitrary: cp) (simp_all add: creditPeriod_other)

lemma creditPeriods_absent:
  "\<forall>p\<in>set ps. map_of cp (periodCoach p) = None \<Longrightarrow> creditPeriods fee s ps cp = cp"
  by (induction ps arbitrary: cp) (simp_all add: creditPeriod_absent)

lemma splitPeriods_no_transfers:
  "splitPeriods workStart workEnd studentEnd cur [] =
     [\<lparr>periodCoach = cur, periodStart = workStart, periodEnd = workEnd\<rparr>]"
  by (simp add: splitPeriods_def sortedTransfers_def relevantTransfers_def coachAtWorkStart_def
      buildPeriods_def)

lemma splitPeriods_single_inside:
  assumes "workStart < transferTime t" "transferTime t \<le> workEnd"
  shows "splitPeriods workStart workEnd studentEnd cur [t] =
     [\<lparr>periodCoach = oldCoachId t, periodStart = workStart, periodEnd = transferTime t - 1\<rparr>,
      \<lparr>periodCoach = newCoachId t, periodStart = transferTime t, periodEnd = workEnd\<rparr>]"
  using assms
  by (simp add: splitPeriods_def sortedTransfers_def relevantTransfers_def coachAtWorkStart_def
      buildPeriods_def Let_def)

lemma splitPeriods_single_at_start:
  assumes "workStart = transferTime t" "transferTime t \<le> workEnd"
  shows "splitPeriods workStart workEnd studentEnd cur [t] =
     [\<lparr>periodCoach = newCoachId t, periodStart = workStart, periodEnd = workEnd\<rparr>]"
  using assms
  by (simp add: splitPeriods_def sortedTransfers_def relevantTransfers_def coachAtWorkStart_def
      buildPeriods_def Let_def)

text \<open>
  Claim C6. The transfer date is the new coach's first day. With a single transfer at
  \<open>T\<close> strictly between \<open>workStart\<close> and \<open>workEnd\<close>, the old coach's period runs from
  \<open>workStart\<close> to \<open>T - 1\<close>, the new coach's from \<open>T\<close> to \<open>workEnd\<close>, and the days of both
  add up to the days of the work window. With a single transfer dated on the cycle start,
  for a student whose package has begun by then, the one period is the whole work window
  and belongs to the new coach; the old coach gets no period, and crediting the student's
  periods leaves the old coach's entry as it was.
\<close>

theorem single_transfer_first_owned_day:
  "(workStart < transferTime t \<and> transferTime t < workEnd \<longrightarrow>
      splitPeriods workStart workEnd studentEnd currentCoachId [t] =
        [\<lparr>periodCoach = oldCoachId t, periodStart = workStart, periodEnd = transferTime t - 1\<rparr>,
         \<lparr>periodCoach = newCoachId t, periodStart = transferTime t, periodEnd = workEnd\<rparr>]
      \<and> sum_list (map periodDays (splitPeriods workStart workEnd studentEnd currentCoachId [t]))
          = workEnd - workStart + 1)
   \<and> (transferTime t = cs \<and> parseISO (packageStartDate s) \<le> cs
        \<and> workWindow cs ce s = (ws, we) \<and> ws \<le> we \<longrightarrow>
      ws = cs
      \<and> splitPeriods ws we (parseISO (packageEndDate s)) currentCoachId [t] =
          [\<lparr>periodCoach = newCoachId t, periodStart = ws, periodEnd = we\<rparr>]
      \<and> (oldCoachId t \<noteq> newCoachId t \<longrightarrow>
            oldCoachId t \<notin> periodCoach ` set (splitPeriods ws we (parseISO (packageEndDate s)) currentCoachId [t])
          \<and> map_of (creditPeriods dailyFee s
                (splitPeriods ws we (parseISO (packageEndDate s)) currentCoachId [t]) cp) (oldCoachId t)
              = map_of cp (oldCoachId t)))"
proof (intro conjI impI)
  assume a: "workStart < transferTime t \<and> transferTime t < workEnd"
  then show sp: "splitPeriods workStart workEnd studentEnd currentCoachId [t] =
        [\<lparr>periodCoach = oldCoachId t, periodStart = workStart, periodEnd = transferTime t - 1\<rparr>,
         \<lparr>periodCoach = newCoachId t, periodStart = transferTime t, periodEnd = workEnd\<rparr>]"
    by (intro splitPeriods_single_inside) simp_all
  show "sum_list (map periodDays (splitPeriods workStart workEnd studentEnd currentCoachId [t]))
          = workEnd - workStart + 1"
    unfolding sp by (simp add: periodDays_def)
next
  assume b: "transferTime t = cs \<and> parseISO (packageStartDate s) \<le> cs
        \<and> workWindow cs ce s = (ws, we) \<and> ws \<le> we"
  then show w: "ws = cs" unfolding workWindow_eq by auto
  from b w have c: "ws = transferTime t" "transferTime t \<le> we" by simp_all
  show sp: "splitPeriods ws we (parseISO (packageEndDate s)) currentCoachId [t] =
          [\<lparr>periodCoach = newCoachId t, periodStart = ws, periodEnd = we\<rparr>]"
    by (rule splitPeriods_single_at_start [OF c])
  assume d: "oldCoachId t \<noteq> newCoachId t"
  then show n: "oldCoachId t \<notin> periodCoach ` set (splitPeriods ws we (parseISO (packageEndDate s)) currentCoachId [t])"
    unfolding sp by simp
  show "map_of (creditPeriods dailyFee s
                (splitPeriods ws we (parseISO (packageEndDate s)) currentCoachId [t]) cp) (oldCoachId t)
              = map_of cp (oldCoachId t)"
    by (rule creditPeriods_other [OF n])
qed

text \<open>
  Claim C8. For a student without transfers whose package window meets the cycle, the
  route produces exactly one period, the intersection of package window and cycle, for the
  student's current coach. Processing the student appends one breakdown item to that
  coach's entry, with the days of the window and the amount \<^verbatim>\<open>(monthlyFee / 30) * daysWorked\<close>
  as the route computes it on numbers, adds that amount to the coach's total and leaves
  every other coach's entry as it was. With a monthly fee of 1100.00 and 30 days the
  amount is exactly 1100 and is written 1100.00; the route as a whole returns it for a
  student who is active through the 30 days of the cycle 2024-04-29 .. 2024-05-28.
\<close>

theorem no_transfer_single_period:
  assumes "workWindow cs ce s = (workStart, workEnd)" and "workStart \<le> workEnd"
    and "history (studentId s) = Some []"
    and "map_of cp currentCoachId = Some cd"
  shows "splitPeriods workStart workEnd (parseISO (packageEndDate s)) currentCoachId []
           = [\<lparr>periodCoach = currentCoachId,
                periodStart = max (parseISO (packageStartDate s)) cs,
                periodEnd = min (parseISO (packageEndDate s)) ce\<rparr>]
       \<and> producedPeriods history cs ce [(s, currentCoachId)]
           = [\<lparr>periodCoach = currentCoachId,
                periodStart = max (parseISO (packageStartDate s)) cs,
                periodEnd = min (parseISO (packageEndDate s)) ce\<rparr>]
       \<and> (\<exists>cp'. processStudents history monthlyFee cs ce [(s, currentCoachId)] cp = Some cp'
            \<and> map fst cp' = map fst cp
            \<and> (\<forall>k. k \<noteq> currentCoachId \<longrightarrow> map_of cp' k = map_of cp k)
            \<and> map_of cp' currentCoachId
                = Some (cd\<lparr>breakdown := breakdown cd @
                           [\<lparr>itemStudentId = studentId s,
                             itemStudentName = firstName s @ '' '' @ lastName s,
                             itemAmount = toFixed2 (numTimes (numDivide monthlyFee 30)
                                                     (of_int (workEnd - workStart + 1))),
                             daysWorked = workEnd - workStart + 1\<rparr>],
                          totalAmount := numPlus (totalAmount cd)
                             (numTimes (numDivide monthlyFee 30)
                                (of_int (workEnd - workStart + 1)))\<rparr>))
       \<and> numTimes (numDivide (parseFloat 1100) 30) 30 = 1100
       \<and> \<bar>numTimes (numDivide (parseFloat 1100) 30) 30 - 1100\<bar> \<le> 1 / 100
       \<and> toFixed2 (numTimes (numDivide (parseFloat 1100) 30) 30) = 110000
       \<and> paymentsCurrentMonth noTransfers may15
           = Json [\<lparr>summaryCoachId = ''A'', summaryCoachName = ''Ada Ay'', activeStudentCount = 1,
                     summaryTotalAmount = 110000,
                     summaryBreakdown =
                       [\<lparr>itemStudentId = ''s1'', itemStudentName = ''Su Kaya'',
                          itemAmount = 110000, daysWorked = 30\<rparr>]\<rparr>]"
proof -
  have w: "workStart = max (parseISO (packageStartDate s)) cs" "workEnd = min (parseISO (packageEndDate s)) ce"
    using assms(1) unfolding workWindow_eq by simp_all
  let ?p = "\<lparr>periodCoach = currentCoachId, periodStart = workStart, periodEnd = workEnd\<rparr>"
  let ?amount = "numTimes (numDivide monthlyFee 30) (of_int (workEnd - workStart + 1))"
  let ?cd = "cd\<lparr>breakdown := breakdown cd @
                           [\<lparr>itemStudentId = studentId s,
                             itemStudentName = firstName s @ '' '' @ lastName s,
                             itemAmount = toFixed2 ?amount,
                             daysWorked = workEnd - workStart + 1\<rparr>],
                          totalAmount := numPlus (totalAmount cd) ?amount\<rparr>"
  have sp: "splitPeriods workStart workEnd (parseISO (packageEndDate s)) currentCoachId [] = [?p]"
    by (rule splitPeriods_no_transfers)
  have one: "splitPeriods workStart workEnd (parseISO (packageEndDate s)) currentCoachId []
           = [\<lparr>periodCoach = currentCoachId,
                periodStart = max (parseISO (packageStartDate s)) cs,
                periodEnd = min (parseISO (packageEndDate s)) ce\<rparr>]"
    unfolding sp using w by simp
  have "producedPeriods history cs ce [(s, currentCoachId)] = [?p]"
    using assms(1,2,3) by (simp add: sp)
  then have prod: "producedPeriods history cs ce [(s, currentCoachId)]
           = [\<lparr>periodCoach = currentCoachId,
                periodStart = max (parseISO (packageStartDate s)) cs,
                periodEnd = min (parseISO (packageEndDate s)) ce\<rparr>]"
    using w by simp
  have run: "processStudents history monthlyFee cs ce [(s, currentCoachId)] cp
               = Some (creditPeriod (numDivide monthlyFee 30) s ?p cp)"
    using assms(1,2,3) by (simp add: sp Let_def)
  have keys: "map fst (creditPeriod (numDivide monthlyFee 30) s ?p cp) = map fst cp"
    by (rule creditPeriod_keys)
  have other: "k \<noteq> currentCoachId
      \<longrightarrow> map_of (creditPeriod (numDivide monthlyFee 30) s ?p cp) k = map_of cp k" for k
    using creditPeriod_other [of k ?p "numDivide monthlyFee 30" s cp] by auto
  have own: "map_of (creditPeriod (numDivide monthlyFee 30) s ?p cp) currentCoachId = Some ?cd"
    using creditPeriod_present [of cp ?p cd "numDivide monthlyFee 30" s] assms(2,4)
    by (simp add: periodDays_def)
  have ex: "\<exists>cp'. processStudents history monthlyFee cs ce [(s, currentCoachId)] cp = Some cp'
            \<and> map fst cp' = map fst cp
            \<and> (\<forall>k. k \<noteq> currentCoachId \<longrightarrow> map_of cp' k = map_of cp k)
            \<and> map_of cp' currentCoachId = Some ?cd"
    using run keys other own by blast
  have v: "numTimes (numDivide (parseFloat 1100) 30) 30 = 1100"
    by code_simp
  have tol: "\<bar>numTimes (numDivide (parseFloat 1100) 30) 30 - 1100\<bar> \<le> 1 / 100"
    unfolding v by simp
  have fx: "toFixed2 (numTimes (numDivide (parseFloat 1100) 30) 30) = 110000"
    by code_simp
  have route: "paymentsCurrentMonth noTransfers may15
           = Json [\<lparr>summaryCoachId = ''A'', summaryCoachName = ''Ada Ay'', activeStudentCount = 1,
                     summaryTotalAmount = 110000,
                     summaryBreakdown =
                       [\<lparr>itemStudentId = ''s1'', itemStudentName = ''Su Kaya'',
                          itemAmount = 110000, daysWorked = 30\<rparr>]\<rparr>]"
    by code_simp
  show ?thesis
    by (intro conjI one prod ex v tol fx route)
qed

text \<open>
  The rounding of doubles shows in the amounts: five days at a monthly fee of 999.99 are
  written 166.66, and fifteen days at 1100.01 are written 550.00.
\<close>

lemma amounts_round_as_doubles:
  "toFixed2 (numTimes (numDivide (parseFloat (99999 / 100)) 30) 5) = 16666"
  "toFixed2 (numTimes (numDivide (parseFloat (110001 / 100)) 30) 15) = 55000"
  by code_simp+

section \<open>Order of retrieval\<close>

text \<open>
  Claim C4, as stated: the result would be the same for any two orders in which the
  storage returns the same transfers. Two transfers of the same date, A to B and B to C,
  give different periods in the two orders: the sort is by date alone and stable, so the
  order of retrieval decides between them.
\<close>

theorem same_date_retrieval_order_counterexample:
  "mset [sameDateA, sameDateB] = mset [sameDateB, sameDateA] \<and>
   splitPeriods 19782 19810 19914 ''C'' [sameDateA, sameDateB]
     = [\<lparr>periodCoach = ''A'', periodStart = 19782, periodEnd = 19791\<rparr>,
        \<lparr>periodCoach = ''C'', periodStart = 19792, periodEnd = 19810\<rparr>] \<and>
   splitPeriods 19782 19810 19914 ''C'' [sameDateB, sameDateA]
     = [\<lparr>periodCoach = ''B'', periodStart = 19782, periodEnd = 19791\<rparr>,
        \<lparr>periodCoach = ''B'', periodStart = 19792, periodEnd = 19810\<rparr>] \<and>
   splitPeriods 19782 19810 19914 ''C'' [sameDateA, sameDateB]
     \<noteq> splitPeriods 19782 19810 19914 ''C'' [sameDateB, sameDateA]"
proof -
  have m: "mset [sameDateA, sameDateB] = mset [sameDateB, sameDateA]" by (simp add: add.commute)
  have a: "splitPeriods 19782 19810 19914 ''C'' [sameDateA, sameDateB]
     = [\<lparr>periodCoach = ''A'', periodStart = 19782, periodEnd = 19791\<rparr>,
        \<lparr>periodCoach = ''C'', periodStart = 19792, periodEnd = 19810\<rparr>]"
    by code_simp
  have b: "splitPeriods 19782 19810 19914 ''C'' [sameDateB, sameDateA]
     = [\<lparr>periodCoach = ''B'', periodStart = 19782, periodEnd = 19791\<rparr>,
        \<lparr>periodCoach = ''B'', periodStart = 19792, periodEnd = 19810\<rparr>]"
    by code_simp
  show ?thesis unfolding a b using m by simp
qed

lemma sortedTransfers_stable:
  "filter (\<lambda>t. transferTime t = d) (sortedTransfers ts) = filter (\<lambda>t. transferTime t = d) ts"
  unfolding sortedTransfers_def by (rule sort_key_stable)

lemma sortedTransfers_eqI:
  assumes "mset ts1 = mset ts2"
    and "\<forall>d. filter (\<lambda>t. transferTime t = d) ts1 = filter (\<lambda>t. transferTime t = d) ts2"
  shows "sortedTransfers ts1 = sortedTransfers ts2"
  unfolding sortedTransfers_def
proof (rule properties_for_sort_key)
  show "mset (sort_key transferTime ts2) = mset ts1" using assms(1) by simp
  show "sorted (map transferTime (sort_key transferTime ts2))" by simp
  fix k assume "k \<in> set (sort_key transferTime ts2)"
  have "filter (\<lambda>x. transferTime x = transferTime k) (sort_key transferTime ts2)
        = filter (\<lambda>x. transferTime x = transferTime k) ts1"
    using assms(2) by (simp add: sort_key_stable)
  moreover have "(\<lambda>x. transferTime k = transferTime x) = (\<lambda>x. transferTime x = transferTime k)"
    by auto
  ultimately show "filter (\<lambda>x. transferTime k = transferTime x) (sort_key transferTime ts2)
        = filter (\<lambda>x. transferTime k = transferTime x) ts1"
    by simp
qed

text \<open>
  Claim C4, amended: the transfers are sorted ascending by date, transfers of the same date
  staying in the order of retrieval; two retrieval orders of the same transfers that agree
  on the relative order of the transfers of each date (as any two do when no two transfers
  share a date) give the same sorted list and the same periods.
\<close>

theorem split_depends_on_date_and_retrieval_order:
  assumes "mset ts1 = mset ts2"
    and "\<forall>d. filter (\<lambda>t. transferTime t = d) ts1 = filter (\<lambda>t. transferTime t = d) ts2"
  shows "sorted (map transferTime (sortedTransfers ts1))
       \<and> (\<forall>d. filter (\<lambda>t. transferTime t = d) (sortedTransfers ts1) = filter (\<lambda>t. transferTime t = d) ts1)
       \<and> sortedTransfers ts1 = sortedTransfers ts2
       \<and> splitPeriods workStart workEnd studentEnd currentCoachId ts1
           = splitPeriods workStart workEnd studentEnd currentCoachId ts2"
proof -
  have e: "sortedTransfers ts1 = sortedTransfers ts2" by (rule sortedTransfers_eqI [OF assms])
  have "sorted (map transferTime (sortedTransfers ts1))" by (simp add: sortedTransfers_def)
  moreover have "splitPeriods workStart workEnd studentEnd currentCoachId ts1
           = splitPeriods workStart workEnd studentEnd currentCoachId ts2"
    by (simp add: splitPeriods_def e)
  ultimately show ?thesis using e sortedTransfers_stable by blast
qed

section \<open>The route as a whole\<close>

lemma processStudents_inv:
  "processStudents h fee cs ce studs cp = Some cp' \<Longrightarrow>
     map fst cp' = map fst cp \<and>
     (\<forall>k. k \<notin> periodCoach ` set (producedPeriods h cs ce studs) \<longrightarrow> map_of cp' k = map_of cp k)"
proof (induction h fee cs ce studs cp rule: processStudents.induct)
  case (1 h fee cs ce cp)
  then show ?case by simp
next
  case (2 h fee cs ce s cur rest cp)
  obtain ws we where w: "workWindow cs ce s = (ws, we)" by (cases "workWindow cs ce s")
  show ?case
  proof (cases "ws > we")
    case True
    with w "2.prems" have "processStudents h fee cs ce rest cp = Some cp'" by simp
    from "2.IH"(1) [OF w [symmetric] refl True this] w True show ?thesis by simp
  next
    case False
    with w "2.prems" obtain ts where ts: "h (studentId s) = Some ts"
      by (cases "h (studentId s)") simp_all
    define ps where "ps = splitPeriods ws we (parseISO (packageEndDate s)) cur ts"
    have run: "processStudents h fee cs ce rest (creditPeriods (numDivide fee 30) s ps cp) = Some cp'"
      using "2.prems" w False ts by (simp add: ps_def Let_def)
    have ih: "map fst cp' = map fst (creditPeriods (numDivide fee 30) s ps cp) \<and>
       (\<forall>k. k \<notin> periodCoach ` set (producedPeriods h cs ce rest) \<longrightarrow>
            map_of cp' k = map_of (creditPeriods (numDivide fee 30) s ps cp) k)"
      using "2.IH"(2) [OF w [symmetric] refl False ts ps_def refl run] .
    have pp: "producedPeriods h cs ce ((s, cur) # rest) = ps @ producedPeriods h cs ce rest"
      using w False ts by (simp add: ps_def)
    have keys: "map fst cp' = map fst cp"
      using ih by (simp add: creditPeriods_keys)
    have vals: "map_of cp' k = map_of cp k"
      if "k \<notin> periodCoach ` set (ps @ producedPeriods h cs ce rest)" for k
    proof -
      from that have a: "k \<notin> periodCoach ` set ps" and b: "k \<notin> periodCoach ` set (producedPeriods h cs ce rest)"
        by auto
      from ih b have "map_of cp' k = map_of (creditPeriods (numDivide fee 30) s ps cp) k" by blast
      also have "\<dots> = map_of cp k" by (rule creditPeriods_other [OF a])
      finally show ?thesis .
    qed
    show ?thesis
      unfolding pp using keys vals by blast
  qed
qed

lemma processStudents_total:
  "\<forall>i. h i \<noteq> None \<Longrightarrow> \<exists>cp'. processStudents h fee cs ce studs cp = Some cp'"
proof (induction h fee cs ce studs cp rule: processStudents.induct)
  case (1 h fee cs ce cp)
  then show ?case by simp
next
  case (2 h fee cs ce s cur rest cp)
  obtain ws we where w: "workWindow cs ce s = (ws, we)" by (cases "workWindow cs ce s")
  show ?case
  proof (cases "ws > we")
    case True
    from "2.IH"(1) [OF w [symmetric] refl True "2.prems"] w True show ?thesis by simp
  next
    case False
    from "2.prems" obtain ts where ts: "h (studentId s) = Some ts" by auto
    from "2.IH"(2) [OF w [symmetric] refl False ts refl refl "2.prems"] w False ts
    show ?thesis by (simp add: Let_def)
  qed
qed

lemma seed_fold_props:
  assumes "distinct (map fst al)" "\<forall>k d. map_of al k = Some d \<longrightarrow> breakdown d = []"
  shows "distinct (map fst (foldl seedCoach al cs))
       \<and> (\<forall>k d. map_of (foldl seedCoach al cs) k = Some d \<longrightarrow> breakdown d = [])
       \<and> subseq (map fst (foldl seedCoach al cs)) (map fst al @ map coachId cs)
       \<and> set (map fst (foldl seedCoach al cs)) = set (map fst al) \<union> set (map coachId cs)"
  using assms
proof (induction cs arbitrary: al)
  case Nil
  then show ?case by simp
next
  case (Cons c cs)
  have d: "distinct (map fst (seedCoach al c))"
    unfolding seedCoach_def by (rule distinct_update [OF Cons.prems(1)])
  have e: "\<forall>k d. map_of (seedCoach al c) k = Some d \<longrightarrow> breakdown d = []"
    using Cons.prems(2) by (auto simp: seedCoach_def update_conv' split: if_splits)
  note ih = Cons.IH [OF d e]
  have k: "subseq (map fst (seedCoach al c)) (map fst al @ [coachId c])"
    by (simp add: seedCoach_def update_keys subseq_rev_drop_many)
  have "subseq (map fst (seedCoach al c) @ map coachId cs) ((map fst al @ [coachId c]) @ map coachId cs)"
    using k by (intro list_emb_append_mono) simp_all
  then have "subseq (map fst (foldl seedCoach (seedCoach al c) cs)) (map fst al @ map coachId (c # cs))"
    using ih subseq_order.order_trans by fastforce
  moreover have "set (map fst (seedCoach al c)) = set (map fst al) \<union> {coachId c}"
    by (auto simp: seedCoach_def update_keys)
  ultimately show ?case using ih by auto
qed

lemma initCoachPayments_props:
  "distinct (map fst (initCoachPayments coaches))
   \<and> (\<forall>k d. map_of (initCoachPayments coaches) k = Some d \<longrightarrow> breakdown d = [])
   \<and> subseq (map fst (initCoachPayments coaches)) (map coachId coaches)
   \<and> set (map fst (initCoachPayments coaches)) = set (map coachId coaches)"
  unfolding initCoachPayments_def using seed_fold_props [of "[]" coaches] by simp

lemma buildSummaries_ids:
  "map summaryCoachId (buildSummaries cp) = map fst (filter (\<lambda>(cid, cd). length (breakdown cd) > 0) cp)"
  by (simp add: buildSummaries_def case_prod_unfold comp_def)

lemma buildSummaries_count:
  "\<forall>s\<in>set (buildSummaries cp). activeStudentCount s = length (summaryBreakdown s) \<and> summaryBreakdown s \<noteq> []"
  by (auto simp: buildSummaries_def)

lemma route_json_cases:
  assumes "paymentsCurrentMonth st today = Json summaries"
  shows "\<exists>coaches settings cp.
           getAllCoaches st = Some coaches \<and> getSettings st = Some settings \<and>
           processStudents (getStudentTransferHistory st) (parseFloat (coachMonthlyFee settings))
             (getTime (cycleStart (resolveCycle today (globalPaymentDay settings))))
             (getTime (cycleEnd (resolveCycle today (globalPaymentDay settings))))
             (allStudents coaches) (initCoachPayments coaches) = Some cp \<and>
           summaries = buildSummaries cp"
  using assms by (auto simp: paymentsCurrentMonth_def Let_def split: option.splits)

lemma route_answers_json:
  assumes "getAllCoaches st = Some coaches" "getSettings st = Some settings"
    and "\<forall>i. getStudentTransferHistory st i \<noteq> None"
  shows "\<exists>cp. processStudents (getStudentTransferHistory st) (parseFloat (coachMonthlyFee settings))
             (getTime (cycleStart (resolveCycle today (globalPaymentDay settings))))
             (getTime (cycleEnd (resolveCycle today (globalPaymentDay settings))))
             (allStudents coaches) (initCoachPayments coaches) = Some cp \<and>
           paymentsCurrentMonth st today = Json (buildSummaries cp)"
proof -
  from processStudents_total [OF assms(3)] obtain cp where
    "processStudents (getStudentTransferHistory st) (parseFloat (coachMonthlyFee settings))
             (getTime (cycleStart (resolveCycle today (globalPaymentDay settings))))
             (getTime (cycleEnd (resolveCycle today (globalPaymentDay settings))))
             (allStudents coaches) (initCoachPayments coaches) = Some cp" by blast
  then show ?thesis using assms(1,2) by (simp add: paymentsCurrentMonth_def Let_def)
qed

lemma awayAndBack_response: "paymentsCurrentMonth awayAndBack march15 = Json awayAndBackSummaries"
  by code_simp

text \<open>
  Claim C9. In the summaries the route returns, a coach to whom no produced period is
  attributed does not appear; every summary has a non-empty breakdown; and the summaries
  follow the order of the roster (their coach identifiers are a subsequence of the
  roster's).
\<close>

theorem summaries_in_roster_order:
  assumes "getAllCoaches st = Some coaches" and "getSettings st = Some settings"
    and "paymentsCurrentMonth st today = Json summaries"
  shows "(\<forall>k. k \<notin> periodCoach ` set (producedPeriods (getStudentTransferHistory st)
                      (getTime (cycleStart (resolveCycle today (globalPaymentDay settings))))
                      (getTime (cycleEnd (resolveCycle today (globalPaymentDay settings))))
                      (allStudents coaches))
              \<longrightarrow> k \<notin> summaryCoachId ` set summaries)
       \<and> (\<forall>s\<in>set summaries. summaryBreakdown s \<noteq> [])
       \<and> subseq (map summaryCoachId summaries) (map coachId coaches)"
proof -
  let ?cs = "getTime (cycleStart (resolveCycle today (globalPaymentDay settings)))"
  let ?ce = "getTime (cycleEnd (resolveCycle today (globalPaymentDay settings)))"
  let ?h = "getStudentTransferHistory st"
  let ?init = "initCoachPayments coaches"
  from route_json_cases [OF assms(3)] assms(1,2) obtain cp where
    run: "processStudents ?h (parseFloat (coachMonthlyFee settings)) ?cs ?ce (allStudents coaches) ?init = Some cp"
    and sm: "summaries = buildSummaries cp" by auto
  note inv = processStudents_inv [OF run]
  note ini = initCoachPayments_props [of coaches]
  have dist: "distinct (map fst cp)" using inv ini by simp
  have a: "k \<notin> summaryCoachId ` set summaries"
    if k: "k \<notin> periodCoach ` set (producedPeriods ?h ?cs ?ce (allStudents coaches))" for k
  proof
    assume "k \<in> summaryCoachId ` set summaries"
    then have "k \<in> set (map summaryCoachId (buildSummaries cp))" using sm by simp
    then obtain d where d: "(k, d) \<in> set cp" "breakdown d \<noteq> []"
      unfolding buildSummaries_ids by auto
    from d(1) dist have "map_of cp k = Some d" by simp
    with inv k have "map_of ?init k = Some d" by simp
    with ini have "breakdown d = []" by blast
    with d(2) show False by simp
  qed
  have b: "\<forall>s\<in>set summaries. summaryBreakdown s \<noteq> []"
    unfolding sm using buildSummaries_count by blast
  have "subseq (map summaryCoachId summaries) (map fst cp)"
    unfolding sm buildSummaries_ids by (intro subseq_map) simp
  moreover have "subseq (map fst cp) (map coachId coaches)" using inv ini by simp
  ultimately have c: "subseq (map summaryCoachId summaries) (map coachId coaches)"
    using subseq_order.order_trans by blast
  show ?thesis using a b c by blast
qed

theorem summaries_in_roster_order_witness:
  "getAllCoaches awayAndBack = Some rosterABC
   \<and> getSettings awayAndBack = Some \<lparr>coachMonthlyFee = 1100, globalPaymentDay = 28\<rparr>
   \<and> paymentsCurrentMonth awayAndBack march15 = Json awayAndBackSummaries
   \<and> ''C'' \<notin> summaryCoachId ` set awayAndBackSummaries
   \<and> subseq (map summaryCoachId awayAndBackSummaries) (map coachId rosterABC)"
proof -
  have h1: "getAllCoaches awayAndBack = Some rosterABC" by (simp add: awayAndBack_def)
  have h2: "getSettings awayAndBack = Some \<lparr>coachMonthlyFee = 1100, globalPaymentDay = 28\<rparr>"
    by (simp add: awayAndBack_def)
  have h3: "paymentsCurrentMonth awayAndBack march15 = Json awayAndBackSummaries"
    by (rule awayAndBack_response)
  have "''C'' \<notin> summaryCoachId ` set awayAndBackSummaries" by (simp add: awayAndBackSummaries_def)
  with h1 h2 h3 summaries_in_roster_order [OF h1 h2 h3] show ?thesis by blast
qed

text \<open>
  Claim C10. In every returned summary \<open>activeStudentCount\<close> is the number of breakdown
  items. A single student who goes from coach A to coach B and back within the cycle adds
  two items to A's breakdown, and A's \<open>activeStudentCount\<close> is 2.
\<close>

theorem activeStudentCount_counts_periods:
  "(\<forall>st today summaries. paymentsCurrentMonth st today = Json summaries \<longrightarrow>
       (\<forall>s\<in>set summaries. activeStudentCount s = length (summaryBreakdown s)))
   \<and> paymentsCurrentMonth awayAndBack march15 = Json awayAndBackSummaries
   \<and> length (filter (\<lambda>s. isActive s = 1) (concat (map students rosterABC))) = 1
   \<and> activeStudentCount (hd awayAndBackSummaries) = 2
   \<and> map itemStudentId (summaryBreakdown (hd awayAndBackSummaries)) = [''s1'', ''s1'']"
proof -
  have g: "\<forall>s\<in>set summaries. activeStudentCount s = length (summaryBreakdown s)"
    if "paymentsCurrentMonth st today = Json summaries" for st today summaries
    using route_json_cases [OF that] buildSummaries_count by blast
  have "length (filter (\<lambda>s. isActive s = 1) (concat (map students rosterABC))) = 1"
    by (simp add: rosterABC_def studentSu_def)
  moreover have "activeStudentCount (hd awayAndBackSummaries) = 2
     \<and> map itemStudentId (summaryBreakdown (hd awayAndBackSummaries)) = [''s1'', ''s1'']"
    by (simp add: awayAndBackSummaries_def)
  ultimately show ?thesis using g awayAndBack_response by blast
qed

theorem activeStudentCount_counts_periods_witness:
  "paymentsCurrentMonth awayAndBack march15 = Json awayAndBackSummaries
   \<and> activeStudentCount (hd awayAndBackSummaries) = length (summaryBreakdown (hd awayAndBackSummaries))"
proof -
  note t = activeStudentCount_counts_periods
  have r: "paymentsCurrentMonth awayAndBack march15 = Json awayAndBackSummaries"
    by (rule t [THEN conjunct2, THEN conjunct1])
  have m: "hd awayAndBackSummaries \<in> set awayAndBackSummaries"
    by (simp add: awayAndBackSummaries_def)
  have "activeStudentCount (hd awayAndBackSummaries) = length (summaryBreakdown (hd awayAndBackSummaries))"
    by (rule t [THEN conjunct1, rule_format, OF r m])
  with r show ?thesis by (intro conjI)
qed

text \<open>
  Claim C2, as stated: a transfer that names a coach outside the roster would make the
  route fail and return no summaries. With a transfer from coach B, who is not in the
  roster, the route answers with the summary of coach A; the ten days that belong to B are
  left out without any error.
\<close>

theorem absent_coach_no_abort_counterexample:
  "''B'' \<notin> coachId ` set rosterA
   \<and> getAllCoaches fromArchivedCoach = Some rosterA
   \<and> map oldCoachId (the (getStudentTransferHistory fromArchivedCoach ''s1'')) = [''B'']
   \<and> paymentsCurrentMonth fromArchivedCoach march15
       = Json [\<lparr>summaryCoachId = ''A'', summaryCoachName = ''Ada Ay'', activeStudentCount = 1,
                 summaryTotalAmount = 69667,
                 summaryBreakdown =
                   [\<lparr>itemStudentId = ''s1'', itemStudentName = ''Su Kaya'',
                      itemAmount = 69667, daysWorked = 19\<rparr>]\<rparr>]"
proof -
  have "paymentsCurrentMonth fromArchivedCoach march15
       = Json [\<lparr>summaryCoachId = ''A'', summaryCoachName = ''Ada Ay'', activeStudentCount = 1,
                 summaryTotalAmount = 69667,
                 summaryBreakdown =
                   [\<lparr>itemStudentId = ''s1'', itemStudentName = ''Su Kaya'',
                      itemAmount = 69667, daysWorked = 19\<rparr>]\<rparr>]"
    by code_simp
  moreover have "''B'' \<notin> coachId ` set rosterA" by (simp add: rosterA_def)
  moreover have "getAllCoaches fromArchivedCoach = Some rosterA" by (simp add: fromArchivedCoach_def)
  moreover have "map oldCoachId (the (getStudentTransferHistory fromArchivedCoach ''s1'')) = [''B'']"
    by (simp add: fromArchivedCoach_def)
  ultimately show ?thesis by (intro conjI)
qed

text \<open>
  Claim C2, amended: when the storage calls succeed the route answers with summaries,
  whatever coaches the transfers name; the summaries are of coaches of the roster only, and
  crediting a period whose coach is not in the roster changes nothing (the guard
  \<^verbatim>\<open>if (coachData)\<close>).
\<close>

theorem absent_coach_periods_skipped:
  assumes "getAllCoaches st = Some coaches" and "getSettings st = Some settings"
    and "\<forall>i. getStudentTransferHistory st i \<noteq> None"
  shows "(\<exists>summaries. paymentsCurrentMonth st today = Json summaries
            \<and> summaryCoachId ` set summaries \<subseteq> coachId ` set coaches)
       \<and> (\<forall>dailyFee s p cp. fst ` set cp = coachId ` set coaches
              \<and> periodCoach p \<notin> coachId ` set coaches
            \<longrightarrow> creditPeriod dailyFee s p cp = cp)"
proof -
  from route_answers_json [OF assms, of today] obtain cp where
    run: "processStudents (getStudentTransferHistory st) (parseFloat (coachMonthlyFee settings))
             (getTime (cycleStart (resolveCycle today (globalPaymentDay settings))))
             (getTime (cycleEnd (resolveCycle today (globalPaymentDay settings))))
             (allStudents coaches) (initCoachPayments coaches) = Some cp"
    and js: "paymentsCurrentMonth st today = Json (buildSummaries cp)" by blast
  have "set (map fst cp) = set (map coachId coaches)"
    using processStudents_inv [OF run] initCoachPayments_props [of coaches] by simp
  moreover have "set (map summaryCoachId (buildSummaries cp)) \<subseteq> set (map fst cp)"
    unfolding buildSummaries_ids by auto
  ultimately have sub: "summaryCoachId ` set (buildSummaries cp) \<subseteq> coachId ` set coaches"
    by simp
  have skip: "creditPeriod dailyFee s p cp' = cp'"
    if "fst ` set cp' = coachId ` set coaches \<and> periodCoach p \<notin> coachId ` set coaches"
    for dailyFee s p cp'
  proof (rule creditPeriod_absent)
    from that have "periodCoach p \<notin> fst ` set cp'" by simp
    then show "map_of cp' (periodCoach p) = None" by (simp add: map_of_eq_None_iff)
  qed
  have "\<exists>summaries. paymentsCurrentMonth st today = Json summaries
            \<and> summaryCoachId ` set summaries \<subseteq> coachId ` set coaches"
    using js sub by (intro exI [of _ "buildSummaries cp"]) simp
  then show ?thesis using skip by simp
qed

theorem absent_coach_periods_skipped_witness:
  "getAllCoaches fromArchivedCoach = Some rosterA
   \<and> getSettings fromArchivedCoach = Some \<lparr>coachMonthlyFee = 1100, globalPaymentDay = 28\<rparr>
   \<and> (\<forall>i. getStudentTransferHistory fromArchivedCoach i \<noteq> None)
   \<and> (\<exists>summaries. paymentsCurrentMonth fromArchivedCoach march15 = Json summaries
            \<and> summaryCoachId ` set summaries \<subseteq> coachId ` set rosterA)"
proof -
  have h1: "getAllCoaches fromArchivedCoach = Some rosterA" by (simp add: fromArchivedCoach_def)
  have h2: "getSettings fromArchivedCoach = Some \<lparr>coachMonthlyFee = 1100, globalPaymentDay = 28\<rparr>"
    by (simp add: fromArchivedCoach_def)
  have h3: "\<forall>i. getStudentTransferHistory fromArchivedCoach i \<noteq> None"
    by (simp add: fromArchivedCoach_def)
  show ?thesis
    by (intro conjI h1 h2 h3 conjunct1 [OF absent_coach_periods_skipped [OF h1 h2 h3, of march15]])
qed

text \<open>
  Claim C5, as stated: a payment day outside 1..31 or a monthly fee that is not positive
  would stop the route with a configuration error. With payment day 0 the route pays
  sixty days, and with a monthly fee of 0 it returns a summary of amount 0.
\<close>

theorem invalid_settings_proceed_counterexample:
  "getSettings paymentDayZero = Some \<lparr>coachMonthlyFee = 1100, globalPaymentDay = 0\<rparr>
   \<and> paymentsCurrentMonth paymentDayZero march15
       = Json [\<lparr>summaryCoachId = ''A'', summaryCoachName = ''Ada Ay'', activeStudentCount = 1,
                 summaryTotalAmount = 220000,
                 summaryBreakdown =
                   [\<lparr>itemStudentId = ''s1'', itemStudentName = ''Su Kaya'',
                      itemAmount = 220000, daysWorked = 60\<rparr>]\<rparr>]
   \<and> getSettings monthlyFeeZero = Some \<lparr>coachMonthlyFee = 0, globalPaymentDay = 28\<rparr>
   \<and> paymentsCurrentMonth monthlyFeeZero march15
       = Json [\<lparr>summaryCoachId = ''A'', summaryCoachName = ''Ada Ay'', activeStudentCount = 1,
                 summaryTotalAmount = 0,
                 summaryBreakdown =
                   [\<lparr>itemStudentId = ''s1'', itemStudentName = ''Su Kaya'',
                      itemAmount = 0, daysWorked = 29\<rparr>]\<rparr>]"
proof -
  have a: "paymentsCurrentMonth paymentDayZero march15
       = Json [\<lparr>summaryCoachId = ''A'', summaryCoachName = ''Ada Ay'', activeStudentCount = 1,
                 summaryTotalAmount = 220000,
                 summaryBreakdown =
                   [\<lparr>itemStudentId = ''s1'', itemStudentName = ''Su Kaya'',
                      itemAmount = 220000, daysWorked = 60\<rparr>]\<rparr>]"
    by code_simp
  have b: "paymentsCurrentMonth monthlyFeeZero march15
       = Json [\<lparr>summaryCoachId = ''A'', summaryCoachName = ''Ada Ay'', activeStudentCount = 1,
                 summaryTotalAmount = 0,
                 summaryBreakdown =
                   [\<lparr>itemStudentId = ''s1'', itemStudentName = ''Su Kaya'',
                      itemAmount = 0, daysWorked = 29\<rparr>]\<rparr>]"
    by code_simp
  have c: "getSettings paymentDayZero = Some \<lparr>coachMonthlyFee = 1100, globalPaymentDay = 0\<rparr>"
    by (simp add: paymentDayZero_def)
  have d: "getSettings monthlyFeeZero = Some \<lparr>coachMonthlyFee = 0, globalPaymentDay = 28\<rparr>"
    by (simp add: monthlyFeeZero_def)
  show ?thesis by (intro conjI a b c d)
qed

text \<open>
  Claim C5, amended: the route does not check the settings. For every payment day and every
  monthly fee, when the storage calls succeed, the students are processed under these
  settings and the summaries are returned.
\<close>

theorem settings_not_validated:
  assumes "getAllCoaches st = Some coaches"
    and "getSettings st = Some \<lparr>coachMonthlyFee = monthlyFee, globalPaymentDay = paymentDay\<rparr>"
    and "\<forall>i. getStudentTransferHistory st i \<noteq> None"
  shows "\<exists>cp. processStudents (getStudentTransferHistory st) (parseFloat monthlyFee)
                 (getTime (cycleStart (resolveCycle today paymentDay)))
                 (getTime (cycleEnd (resolveCycle today paymentDay)))
                 (allStudents coaches) (initCoachPayments coaches) = Some cp
            \<and> paymentsCurrentMonth st today = Json (buildSummaries cp)"
  using route_answers_json [OF assms, of today] by simp

theorem settings_not_validated_witness:
  "getAllCoaches paymentDayZero = Some rosterA
   \<and> getSettings paymentDayZero = Some \<lparr>coachMonthlyFee = 1100, globalPaymentDay = 0\<rparr>
   \<and> (\<forall>i. getStudentTransferHistory paymentDayZero i \<noteq> None)
   \<and> (\<exists>cp. processStudents (getStudentTransferHistory paymentDayZero) (parseFloat 1100)
                 (getTime (cycleStart (resolveCycle march15 0)))
                 (getTime (cycleEnd (resolveCycle march15 0)))
                 (allStudents rosterA) (initCoachPayments rosterA) = Some cp
            \<and> paymentsCurrentMonth paymentDayZero march15 = Json (buildSummaries cp))"
proof -
  have h1: "getAllCoaches paymentDayZero = Some rosterA" by (simp add: paymentDayZero_def)
  have h2: "getSettings paymentDayZero = Some \<lparr>coachMonthlyFee = 1100, globalPaymentDay = 0\<rparr>"
    by (simp add: paymentDayZero_def)
  have h3: "\<forall>i. getStudentTransferHistory paymentDayZero i \<noteq> None"
    by (simp add: paymentDayZero_def)
  show ?thesis
    by (intro conjI h1 h2 h3 settings_not_validated [OF h1 h2 h3, of march15])
qed

section \<open>The theorems on the example data\<close>

lemma example_times:
  "transferTime transferToB = 19787" "transferTime transferBackToA = 19802"
  "parseISO (packageStartDate studentSu) = 19732" "parseISO (packageEndDate studentSu) = 19914"
  by (simp_all add: transferTime_def transferToB_def transferBackToA_def studentSu_def parseISO_def
      makeDay_def dayFromYear_def daysBeforeMonth_def isLeapYear_def)

lemma example_coaches:
  "oldCoachId transferToB = ''A''" "newCoachId transferToB = ''B''"
  by (simp_all add: transferToB_def)

theorem work_periods_partition_witness:
  "workWindow 19782 19810 studentSu = (19782, 19810) \<and> (19782::int) \<le> 19810
   \<and> sum_list (map periodDays
        (splitPeriods 19782 19810 (parseISO (packageEndDate studentSu)) ''A''
           [transferBackToA, transferToB])) = 29
   \<and> (\<Union>p\<in>set (splitPeriods 19782 19810 (parseISO (packageEndDate studentSu)) ''A''
           [transferBackToA, transferToB]). {periodStart p..periodEnd p}) = {19782..19810}"
proof -
  have h1: "workWindow 19782 19810 studentSu = (19782, 19810)"
    by (simp add: workWindow_eq example_times)
  have h2: "(19782::int) \<le> 19810" by simp
  note t = work_periods_partition [OF h1 h2, of "''A''" "[transferBackToA, transferToB]", unfolded Let_def]
  have a: "sum_list (map periodDays
        (splitPeriods 19782 19810 (parseISO (packageEndDate studentSu)) ''A''
           [transferBackToA, transferToB])) = 29"
    using t by simp
  have b: "(\<Union>p\<in>set (splitPeriods 19782 19810 (parseISO (packageEndDate studentSu)) ''A''
           [transferBackToA, transferToB]). {periodStart p..periodEnd p}) = {19782..19810}"
    using t by simp
  show ?thesis by (intro conjI h1 h2 a b)
qed

theorem split_depends_on_date_and_retrieval_order_witness:
  "mset [transferBackToA, transferToB] = mset [transferToB, transferBackToA]
   \<and> (\<forall>d. filter (\<lambda>t. transferTime t = d) [transferBackToA, transferToB]
          = filter (\<lambda>t. transferTime t = d) [transferToB, transferBackToA])
   \<and> splitPeriods 19782 19810 19914 ''A'' [transferBackToA, transferToB]
       = splitPeriods 19782 19810 19914 ''A'' [transferToB, transferBackToA]"
proof -
  have h1: "mset [transferBackToA, transferToB] = mset [transferToB, transferBackToA]"
    by (simp add: add.commute)
  have h2: "\<forall>d. filter (\<lambda>t. transferTime t = d) [transferBackToA, transferToB]
          = filter (\<lambda>t. transferTime t = d) [transferToB, transferBackToA]"
    by (simp add: example_times)
  note t = split_depends_on_date_and_retrieval_order [OF h1 h2, of 19782 19810 19914 "''A''"]
  have a: "splitPeriods 19782 19810 19914 ''A'' [transferBackToA, transferToB]
       = splitPeriods 19782 19810 19914 ''A'' [transferToB, transferBackToA]"
    using t by simp
  show ?thesis by (intro conjI h1 h2 a)
qed

theorem single_transfer_first_owned_day_witness:
  "(19782 < transferTime transferToB \<and> transferTime transferToB < 19810)
   \<and> (transferTime transferToB = 19787 \<and> parseISO (packageStartDate studentSu) \<le> 19787
        \<and> workWindow 19787 19810 studentSu = (19787, 19810) \<and> (19787::int) \<le> 19810)
   \<and> splitPeriods 19782 19810 19914 ''B'' [transferToB] =
        [\<lparr>periodCoach = ''A'', periodStart = 19782, periodEnd = 19786\<rparr>,
         \<lparr>periodCoach = ''B'', periodStart = 19787, periodEnd = 19810\<rparr>]
   \<and> splitPeriods 19787 19810 (parseISO (packageEndDate studentSu)) ''B'' [transferToB] =
        [\<lparr>periodCoach = ''B'', periodStart = 19787, periodEnd = 19810\<rparr>]"
proof -
  have h1: "19782 < transferTime transferToB \<and> transferTime transferToB < 19810"
    by (simp add: example_times)
  have h2: "transferTime transferToB = 19787 \<and> parseISO (packageStartDate studentSu) \<le> 19787
        \<and> workWindow 19787 19810 studentSu = (19787, 19810) \<and> (19787::int) \<le> 19810"
    by (simp add: workWindow_eq example_times)
  note t = single_transfer_first_owned_day [where workStart = 19782 and workEnd = 19810
      and t = transferToB and studentEnd = 19914 and currentCoachId = "''B''" and cs = 19787
      and ce = 19810 and s = studentSu and ws = 19787 and we = 19810]
  have a: "splitPeriods 19782 19810 19914 ''B'' [transferToB] =
        [\<lparr>periodCoach = ''A'', periodStart = 19782, periodEnd = 19786\<rparr>,
         \<lparr>periodCoach = ''B'', periodStart = 19787, periodEnd = 19810\<rparr>]"
    using t [THEN conjunct1, THEN mp, OF h1] by (simp add: example_times example_coaches)
  have b: "splitPeriods 19787 19810 (parseISO (packageEndDate studentSu)) ''B'' [transferToB] =
        [\<lparr>periodCoach = ''B'', periodStart = 19787, periodEnd = 19810\<rparr>]"
    using t [THEN conjunct2, THEN mp, OF h2] by (simp add: example_coaches)
  show ?thesis by (intro conjI a b) (use h1 h2 in simp_all)
qed

theorem no_transfer_single_period_witness:
  "workWindow 19782 19811 studentSu = (19782, 19811) \<and> (19782::int) \<le> 19811
   \<and> getStudentTransferHistory noTransfers (studentId studentSu) = Some []
   \<and> map_of (initCoachPayments rosterA) ''A''
       = Some \<lparr>coachName = ''Ada Ay'', breakdown = [], totalAmount = 0\<rparr>
   \<and> producedPeriods (getStudentTransferHistory noTransfers) 19782 19811 [(studentSu, ''A'')]
       = [\<lparr>periodCoach = ''A'', periodStart = 19782, periodEnd = 19811\<rparr>]
   \<and> toFixed2 (numTimes (numDivide (parseFloat 1100) 30) 30) = 110000"
proof -
  have h1: "workWindow 19782 19811 studentSu = (19782, 19811)"
    by (simp add: workWindow_eq example_times)
  have h2: "(19782::int) \<le> 19811" by simp
  have h3: "getStudentTransferHistory noTransfers (studentId studentSu) = Some []"
    by (simp add: noTransfers_def)
  have h4: "map_of (initCoachPayments rosterA) ''A''
       = Some \<lparr>coachName = ''Ada Ay'', breakdown = [], totalAmount = 0\<rparr>"
    by (simp add: initCoachPayments_def seedCoach_def rosterA_def)
  note t = no_transfer_single_period [where history = "getStudentTransferHistory noTransfers"
      and s = studentSu and cs = 19782 and ce = 19811 and workStart = 19782 and workEnd = 19811
      and cp = "initCoachPayments rosterA" and currentCoachId = "''A''"
      and monthlyFee = "parseFloat 1100", OF h1 h2 h3 h4]
  have a: "producedPeriods (getStudentTransferHistory noTransfers) 19782 19811 [(studentSu, ''A'')]
       = [\<lparr>periodCoach = ''A'', periodStart = 19782, periodEnd = 19811\<rparr>]"
    using t [THEN conjunct2, THEN conjunct1] by (simp add: example_times)
  have b: "toFixed2 (numTimes (numDivide (parseFloat 1100) 30) 30) = 110000"
    by (rule t [THEN conjunct2, THEN conjunct2, THEN conjunct2, THEN conjunct2, THEN conjunct2,
          THEN conjunct1])
  show ?thesis by (intro conjI h1 h2 h3 h4 a b)
qed

end
